theory Spec2Isabelle
  imports Main "HOL-Library.Word" "HOL-Library.Sublist" "HOL-Library.AList"
begin

section \<open>Values, identifiers and documents\<close>

text \<open>
  A store identifier (\<^verbatim>\<open>bson.ObjectId\<close>) is a 12-byte value. \<^verbatim>\<open>str(oid)\<close> is its
  24-digit lower-case hexadecimal rendering, and \<^verbatim>\<open>ObjectId(s)\<close> on a string, as the
  library documents it, accepts the strings of 24 hexadecimal digits (either case) and
  raises \<^verbatim>\<open>InvalidId\<close> on every other string.
\<close>

type_synonym ObjectId = "96 word"

definition hexdigit :: "nat \<Rightarrow> char" where
  "hexdigit d = ''0123456789abcdef'' ! d"

primrec hexlify :: "nat \<Rightarrow> nat \<Rightarrow> string" where
  "hexlify 0 v = []"
| "hexlify (Suc n) v = hexlify n (v div 16) @ [hexdigit (v mod 16)]"

definition str_of_oid :: "ObjectId \<Rightarrow> string" where
  "str_of_oid w = hexlify 24 (unat w)"

definition unhex :: "char \<Rightarrow> nat option" where
  "unhex c = map_of
     [(CHR ''0'', 0), (CHR ''1'', 1), (CHR ''2'', 2), (CHR ''3'', 3), (CHR ''4'', 4),
      (CHR ''5'', 5), (CHR ''6'', 6), (CHR ''7'', 7), (CHR ''8'', 8), (CHR ''9'', 9),
      (CHR ''a'', 10), (CHR ''b'', 11), (CHR ''c'', 12), (CHR ''d'', 13), (CHR ''e'', 14),
      (CHR ''f'', 15),
      (CHR ''A'', 10), (CHR ''B'', 11), (CHR ''C'', 12), (CHR ''D'', 13), (CHR ''E'', 14),
      (CHR ''F'', 15)] c"

fun fromhex :: "nat \<Rightarrow> string \<Rightarrow> nat option" where
  "fromhex acc [] = Some acc"
| "fromhex acc (c # cs) =
     (case unhex c of None \<Rightarrow> None | Some d \<Rightarrow> fromhex (acc * 16 + d) cs)"

definition ObjectId_of_str :: "string \<Rightarrow> ObjectId option" where
  "ObjectId_of_str s =
     (if length s = 24 then map_option word_of_nat (fromhex 0 s) else None)"

text \<open>
  The values a document field holds. A Python \<^verbatim>\<open>dict\<close> is an association list: the
  order of the keys is the insertion order.
\<close>

datatype val = VNone | VBool bool | VInt int | VStr string | VOid ObjectId | VDatetime nat

type_synonym pydict = "(string \<times> val) list"

text \<open>
  A stored document. The store gives every document it holds an \<^verbatim>\<open>_id\<close>, and the
  application never supplies one, so it is always a generated \<^verbatim>\<open>ObjectId\<close>: the field
  \<open>doc_id\<close> is the key \<^verbatim>\<open>"_id"\<close> of the dictionary, \<open>doc_fields\<close> are its other keys.
\<close>

record doc =
  doc_id :: ObjectId
  doc_fields :: pydict

definition doc_lookup :: "doc \<Rightarrow> string \<Rightarrow> val option" where
  "doc_lookup d k = (if k = ''_id'' then Some (VOid (doc_id d)) else map_of (doc_fields d) k)"

text \<open>\<^verbatim>\<open>d.get(k)\<close> and \<^verbatim>\<open>d.get(k, default)\<close>.\<close>

definition doc_get :: "doc \<Rightarrow> string \<Rightarrow> val" where
  "doc_get d k = (case doc_lookup d k of None \<Rightarrow> VNone | Some v \<Rightarrow> v)"

definition doc_get_default :: "doc \<Rightarrow> string \<Rightarrow> val \<Rightarrow> val" where
  "doc_get_default d k dflt = (case doc_lookup d k of None \<Rightarrow> dflt | Some v \<Rightarrow> v)"

section \<open>Errors\<close>

text \<open>
  Every exception of the source is a value. \<open>HTTPException\<close> carries the status code and
  the detail; the others are raised by the libraries and are not caught by a handler,
  which the framework answers with status 500.
\<close>

datatype error =
    HTTPException nat string
  | InvalidId
  | ValidationError
  | TypeError
  | StoreError

fun status_code :: "error \<Rightarrow> nat" where
  "status_code (HTTPException code detail) = code"
| "status_code e = 500"

section \<open>The document store\<close>

text \<open>
  Modelled from the spec: the module \<^verbatim>\<open>database\<close> (the handle \<^verbatim>\<open>db\<close>,
  \<^verbatim>\<open>create_document\<close>, \<^verbatim>\<open>get_documents\<close>) is not among the sources. The spec describes
  a document store adapter offering insert-one and find-many / find-one by filter, with
  store-generated unique identifiers. A database is its collections by name, each a list
  of documents in insertion order, and the next identifier the store will generate. The
  handle \<^verbatim>\<open>db\<close> is \<open>None\<close> when the store is not configured.
\<close>

record database =
  colls :: "(string \<times> doc list) list"
  next_oid :: ObjectId

definition coll :: "database \<Rightarrow> string \<Rightarrow> doc list" where
  "coll d cname = (case map_of (colls d) cname of None \<Rightarrow> [] | Some ds \<Rightarrow> ds)"

text \<open>A filter \<^verbatim>\<open>{k1: v1, ...}\<close> matches a document that holds each value at its key.\<close>

definition matches :: "pydict \<Rightarrow> doc \<Rightarrow> bool" where
  "matches flt d = list_all (\<lambda>(k, v). doc_lookup d k = Some v) flt"

definition find_one :: "doc list \<Rightarrow> pydict \<Rightarrow> doc option" where
  "find_one ds flt = List.find (matches flt) ds"

definition find_many :: "doc list \<Rightarrow> pydict \<Rightarrow> doc list" where
  "find_many ds flt = filter (matches flt) ds"

definition insert_one :: "database \<Rightarrow> string \<Rightarrow> pydict \<Rightarrow> database \<times> ObjectId" where
  "insert_one d cname data =
     (let i = next_oid d;
          new = \<lparr>doc_id = i, doc_fields = data\<rparr>
      in (d\<lparr>colls := AList.update cname (coll d cname @ [new]) (colls d),
             next_oid := i + 1\<rparr>, i))"

text \<open>
  Modelled from the spec: \<^verbatim>\<open>create_document\<close> inserts one document and returns the
  generated identifier as text; \<^verbatim>\<open>get_documents\<close> returns the documents matching the
  filter, at most \<open>limit\<close> of them, in store order.
\<close>

definition create_document ::
  "database option \<Rightarrow> string \<Rightarrow> pydict \<Rightarrow> (error + string) \<times> database option" where
  "create_document db cname data =
     (case db of
        None \<Rightarrow> (Inl StoreError, db)
      | Some d \<Rightarrow> (let (d', i) = insert_one d cname data in (Inr (str_of_oid i), Some d')))"

definition get_documents ::
  "database option \<Rightarrow> string \<Rightarrow> pydict \<Rightarrow> nat \<Rightarrow> error + doc list" where
  "get_documents db cname flt limit =
     (case db of
        None \<Rightarrow> Inl StoreError
      | Some d \<Rightarrow> Inr (take limit (find_many (coll d cname) flt)))"

section \<open>Strings\<close>

text \<open>
  \<^verbatim>\<open>s.replace(old, new)\<close>: the occurrences of \<open>old\<close> are found from left to right,
  without overlap, and each is replaced by \<open>new\<close>.
\<close>

function (sequential) str_replace :: "string \<Rightarrow> string \<Rightarrow> string \<Rightarrow> string" where
  "str_replace [] new s = new @ concat (map (\<lambda>c. c # new) s)"
| "str_replace old new [] = []"
| "str_replace old new (c # cs) =
     (if prefix old (c # cs)
      then new @ str_replace old new (drop (length old) (c # cs))
      else c # str_replace old new cs)"
  by pat_completeness auto
termination
  by (relation "measure (\<lambda>(old, new, s). length s)") auto

section \<open>Customer authentication\<close>

record LoginRequest =
  lr_email :: string
  lr_password :: string

record LoginResponse =
  token :: string
  customer_id :: string
  name :: string

text \<open>\<^verbatim>\<open>LoginResponse(token=..., customer_id=..., name=...)\<close>: every field must be a string.\<close>

definition mk_LoginResponse :: "string \<Rightarrow> string \<Rightarrow> val \<Rightarrow> error + LoginResponse" where
  "mk_LoginResponse t cid n =
     (case n of
        VStr s \<Rightarrow> Inr \<lparr>token = t, customer_id = cid, name = s\<rparr>
      | _ \<Rightarrow> Inl ValidationError)"

definition get_customer_by_email :: "database option \<Rightarrow> string \<Rightarrow> doc option" where
  "get_customer_by_email db email =
     (case db of
        None \<Rightarrow> None
      | Some d \<Rightarrow> find_one (coll d ''customer'') [(''email'', VStr email)])"

definition login :: "database option \<Rightarrow> LoginRequest \<Rightarrow> error + LoginResponse" where
  "login db payload =
     (if db = None then Inl (HTTPException 500 ''Database not configured'')
      else case get_customer_by_email db (lr_email payload) of
        None \<Rightarrow> Inl (HTTPException 401 ''Invalid credentials'')
      | Some customer \<Rightarrow>
          if VStr (lr_password payload) \<noteq> doc_get customer ''password_hash''
          then Inl (HTTPException 401 ''Invalid credentials'')
          else let token = str_of_oid (doc_id customer)
               in mk_LoginResponse token token (doc_get_default customer ''name'' (VStr ''User'')))"

definition get_current ::
  "string \<Rightarrow> database option \<Rightarrow> string option \<Rightarrow> error + doc" where
  "get_current cname db authorization =
     (case db of
        None \<Rightarrow> Inl (HTTPException 500 ''Database not configured'')
      | Some d \<Rightarrow>
         (case authorization of
            None \<Rightarrow> Inl (HTTPException 401 ''Missing token'')
          | Some a \<Rightarrow>
             if a = [] then Inl (HTTPException 401 ''Missing token'')
             else let token = str_replace ''Bearer '' [] a
                  in case ObjectId_of_str token of
                       None \<Rightarrow> Inl (HTTPException 401 ''Invalid token'')
                     | Some oid \<Rightarrow>
                        (case find_one (coll d cname) [(''_id'', VOid oid)] of
                           None \<Rightarrow> Inl (HTTPException 401 ''Invalid token'')
                         | Some found \<Rightarrow> Inr found)))"

text \<open>
  \<^verbatim>\<open>get_current_customer\<close> and \<^verbatim>\<open>get_current_admin\<close> are the same text in the source but for
  the collection they read.
\<close>

definition get_current_customer :: "database option \<Rightarrow> string option \<Rightarrow> error + doc" where
  "get_current_customer = get_current ''customer''"

definition get_current_admin :: "database option \<Rightarrow> string option \<Rightarrow> error + doc" where
  "get_current_admin = get_current ''admin''"

section \<open>Schemas\<close>

text \<open>
  The classes of \<^verbatim>\<open>schemas.py\<close>. Constructing one validates its fields and raises
  \<^verbatim>\<open>ValidationError\<close> when a field does not fit its declaration. The check behind
  \<^verbatim>\<open>EmailStr\<close> belongs to a library outside the repository, so it is a parameter of the
  constructor of a \<^verbatim>\<open>Lead\<close>, and of the handler and the endpoint that build one: a call
  that returns the validated address or raises.
\<close>

record Lead =
  customer_id :: string
  name :: string
  email :: "string option"
  phone :: "string option"
  source :: "string option"
  status :: string
  lead_notes :: "string option"

definition mk_Lead ::
  "(string \<Rightarrow> error + string) \<Rightarrow> string \<Rightarrow> string \<Rightarrow> string option \<Rightarrow> string option \<Rightarrow>
   string option \<Rightarrow> error + Lead" where
  "mk_Lead EmailStr_call cid n e p s =
     (case e of
        None \<Rightarrow>
          Inr \<lparr>Lead.customer_id = cid, name = n, email = None, phone = p, source = s,
               status = ''new'', lead_notes = None\<rparr>
      | Some a \<Rightarrow>
         (case EmailStr_call a of
            Inl err \<Rightarrow> Inl err
          | Inr validated \<Rightarrow>
              Inr \<lparr>Lead.customer_id = cid, name = n, email = Some validated, phone = p,
                   source = s, status = ''new'', lead_notes = None\<rparr>))"

record Feedback =
  lead_id :: string
  customer_id :: string
  rating :: "int option"
  disposition :: string
  comment :: "string option"
  submitted_at :: "nat option"

definition dispositions :: "string list" where
  "dispositions = [''qualified'', ''unqualified'', ''follow_up'', ''wrong_number'', ''no_response'']"

definition mk_Feedback ::
  "string \<Rightarrow> string \<Rightarrow> int option \<Rightarrow> string \<Rightarrow> string option \<Rightarrow> nat option \<Rightarrow> error + Feedback" where
  "mk_Feedback lid cid r d c t =
     (if (case r of None \<Rightarrow> True | Some n \<Rightarrow> 1 \<le> n \<and> n \<le> 5) \<and> d \<in> set dispositions
      then Inr \<lparr>lead_id = lid, Feedback.customer_id = cid, rating = r, disposition = d,
                comment = c, submitted_at = t\<rparr>
      else Inl ValidationError)"

text \<open>
  Modelled from the spec: the class \<^verbatim>\<open>Admin\<close> is imported from \<^verbatim>\<open>schemas\<close> but its
  declaration is not among the sources. The spec gives it a username, a password_hash, a
  role and an is_active flag; no constraint on them is known, so constructing one
  succeeds.
\<close>

record Admin =
  username :: string
  password_hash :: string
  role :: string
  is_active :: bool

definition mk_Admin :: "string \<Rightarrow> string \<Rightarrow> string \<Rightarrow> bool \<Rightarrow> error + Admin" where
  "mk_Admin u p r a = Inr \<lparr>username = u, password_hash = p, role = r, is_active = a\<rparr>"

text \<open>The dictionary of a model instance, as the store receives it.\<close>

definition opt_str :: "string option \<Rightarrow> val" where
  "opt_str x = (case x of None \<Rightarrow> VNone | Some s \<Rightarrow> VStr s)"

definition Lead_dump :: "Lead \<Rightarrow> pydict" where
  "Lead_dump l =
     [(''customer_id'', VStr (Lead.customer_id l)), (''name'', VStr (Lead.name l)),
      (''email'', opt_str (email l)), (''phone'', opt_str (phone l)),
      (''source'', opt_str (source l)), (''status'', VStr (status l)),
      (''notes'', opt_str (lead_notes l))]"

definition Feedback_dump :: "Feedback \<Rightarrow> pydict" where
  "Feedback_dump f =
     [(''lead_id'', VStr (lead_id f)), (''customer_id'', VStr (Feedback.customer_id f)),
      (''rating'', (case rating f of None \<Rightarrow> VNone | Some n \<Rightarrow> VInt n)),
      (''disposition'', VStr (disposition f)), (''comment'', opt_str (comment f)),
      (''submitted_at'', (case submitted_at f of None \<Rightarrow> VNone | Some t \<Rightarrow> VDatetime t))]"

definition Admin_dump :: "Admin \<Rightarrow> pydict" where
  "Admin_dump a =
     [(''username'', VStr (username a)), (''password_hash'', VStr (password_hash a)),
      (''role'', VStr (role a)), (''is_active'', VBool (is_active a))]"

section \<open>Admin seeding\<close>

text \<open>
  \<^verbatim>\<open>ensure_default_admin\<close> wraps its whole body in \<^verbatim>\<open>try ... except Exception: pass\<close>.
  The three calls of the body (the lookup, the construction of the \<^verbatim>\<open>Admin\<close> and the
  insertion) are parameters here, so that they may raise anything; the result is the
  outcome of the function and the store handle after it.
\<close>

definition ensure_default_admin_with ::
  "(database \<Rightarrow> string \<Rightarrow> pydict \<Rightarrow> error + doc option) \<Rightarrow>
   (string \<Rightarrow> string \<Rightarrow> string \<Rightarrow> bool \<Rightarrow> error + Admin) \<Rightarrow>
   (database option \<Rightarrow> string \<Rightarrow> pydict \<Rightarrow> (error + string) \<times> database option) \<Rightarrow>
   database option \<Rightarrow> (error + unit) \<times> database option" where
  "ensure_default_admin_with find_one_call Admin_call create_document_call db =
     (let body =
        (case db of
           None \<Rightarrow> (Inr (), db)
         | Some d \<Rightarrow>
            (case find_one_call d ''admin'' [(''username'', VStr ''admin'')] of
               Inl e \<Rightarrow> (Inl e, db)
             | Inr (Some existing) \<Rightarrow> (Inr (), db)
             | Inr None \<Rightarrow>
                (case Admin_call ''admin'' ''admin'' ''admin'' True of
                   Inl e \<Rightarrow> (Inl e, db)
                 | Inr data \<Rightarrow>
                    (case create_document_call db ''admin'' (Admin_dump data) of
                       (Inl e, db') \<Rightarrow> (Inl e, db')
                     | (Inr inserted_id, db') \<Rightarrow> (Inr (), db')))))
      in case body of
           (Inl e, db') \<Rightarrow> (Inr (), db')
         | (Inr u, db') \<Rightarrow> (Inr u, db'))"

definition ensure_default_admin :: "database option \<Rightarrow> (error + unit) \<times> database option" where
  "ensure_default_admin =
     ensure_default_admin_with (\<lambda>d cname flt. Inr (find_one (coll d cname) flt)) mk_Admin
       create_document"

definition startup_event :: "database option \<Rightarrow> (error + unit) \<times> database option" where
  "startup_event db = ensure_default_admin db"

section \<open>Leads\<close>

record LeadCreate =
  lc_name :: string
  lc_email :: "string option"
  lc_phone :: "string option"
  lc_source :: "string option"

definition create_lead ::
  "(string \<Rightarrow> error + string) \<Rightarrow> database option \<Rightarrow> LeadCreate \<Rightarrow> doc \<Rightarrow>
   (error + pydict) \<times> database option" where
  "create_lead EmailStr_call db payload customer =
     (case mk_Lead EmailStr_call (str_of_oid (doc_id customer)) (lc_name payload)
             (lc_email payload) (lc_phone payload) (lc_source payload) of
        Inl e \<Rightarrow> (Inl e, db)
      | Inr data \<Rightarrow>
         (case create_document db ''lead'' (Lead_dump data) of
            (Inl e, db') \<Rightarrow> (Inl e, db')
          | (Inr inserted_id, db') \<Rightarrow> (Inr [(''id'', VStr inserted_id)], db')))"

text \<open>
  \<^verbatim>\<open>d["_id"] = str(d["_id"]) if "_id" in d else None\<close>: a stored document always has the
  key, which comes first in the dictionary the store returns.
\<close>

definition render_id :: "doc \<Rightarrow> pydict" where
  "render_id d = (''_id'', VStr (str_of_oid (doc_id d))) # doc_fields d"

definition list_leads :: "database option \<Rightarrow> doc \<Rightarrow> error + pydict list" where
  "list_leads db customer =
     (case get_documents db ''lead''
             [(''customer_id'', VStr (str_of_oid (doc_id customer)))] 100 of
        Inl e \<Rightarrow> Inl e
      | Inr docs \<Rightarrow> Inr (map render_id docs))"

section \<open>Feedback\<close>

record FeedbackCreate =
  fc_lead_id :: string
  fc_rating :: "int option"
  fc_disposition :: "string option"
  fc_comment :: "string option"

text \<open>
  Both feedback handlers start with the same lookup,
  \<^verbatim>\<open>db["lead"].find_one({"_id": ObjectId(lead_id), "customer_id": str(customer["_id"])})\<close>.
  \<^verbatim>\<open>ObjectId(lead_id)\<close> is not inside a \<^verbatim>\<open>try\<close>: its \<^verbatim>\<open>InvalidId\<close> leaves the handler.
\<close>

definition find_owned_lead :: "database option \<Rightarrow> string \<Rightarrow> doc \<Rightarrow> error + doc option" where
  "find_owned_lead db lid customer =
     (case db of
        None \<Rightarrow> Inl TypeError
      | Some d \<Rightarrow>
         (case ObjectId_of_str lid of
            None \<Rightarrow> Inl InvalidId
          | Some oid \<Rightarrow>
              Inr (find_one (coll d ''lead'')
                     [(''_id'', VOid oid),
                      (''customer_id'', VStr (str_of_oid (doc_id customer)))])))"

text \<open>\<^verbatim>\<open>payload.disposition or "follow_up"\<close>: \<open>None\<close> and the empty string are both falsy.\<close>

definition disposition_or_default :: "string option \<Rightarrow> string" where
  "disposition_or_default d =
     (case d of None \<Rightarrow> ''follow_up'' | Some s \<Rightarrow> if s = [] then ''follow_up'' else s)"

text \<open>The argument \<open>now\<close> is the value of \<^verbatim>\<open>datetime.now(timezone.utc)\<close>.\<close>

definition submit_feedback ::
  "database option \<Rightarrow> nat \<Rightarrow> FeedbackCreate \<Rightarrow> doc \<Rightarrow> (error + pydict) \<times> database option" where
  "submit_feedback db now payload customer =
     (case find_owned_lead db (fc_lead_id payload) customer of
        Inl e \<Rightarrow> (Inl e, db)
      | Inr None \<Rightarrow> (Inl (HTTPException 404 ''Lead not found''), db)
      | Inr (Some lead) \<Rightarrow>
         (case mk_Feedback (fc_lead_id payload) (str_of_oid (doc_id customer))
                 (fc_rating payload) (disposition_or_default (fc_disposition payload))
                 (fc_comment payload) (Some now) of
            Inl e \<Rightarrow> (Inl e, db)
          | Inr data \<Rightarrow>
             (case create_document db ''feedback'' (Feedback_dump data) of
                (Inl e, db') \<Rightarrow> (Inl e, db')
              | (Inr inserted_id, db') \<Rightarrow> (Inr [(''id'', VStr inserted_id)], db'))))"

definition get_feedback_for_lead ::
  "database option \<Rightarrow> string \<Rightarrow> doc \<Rightarrow> error + pydict list" where
  "get_feedback_for_lead db lid customer =
     (case find_owned_lead db lid customer of
        Inl e \<Rightarrow> Inl e
      | Inr None \<Rightarrow> Inl (HTTPException 404 ''Lead not found'')
      | Inr (Some lead) \<Rightarrow>
         (case get_documents db ''feedback''
                 [(''lead_id'', VStr lid),
                  (''customer_id'', VStr (str_of_oid (doc_id customer)))] 200 of
            Inl e \<Rightarrow> Inl e
          | Inr docs \<Rightarrow> Inr (map render_id docs)))"

section \<open>The endpoints\<close>

text \<open>
  An endpoint declared with \<^verbatim>\<open>Depends(get_current_customer)\<close> resolves the
  \<^verbatim>\<open>Authorization\<close> header first and runs the handler on the customer it returns.
\<close>

definition post_leads ::
  "(string \<Rightarrow> error + string) \<Rightarrow> database option \<Rightarrow> string option \<Rightarrow> LeadCreate \<Rightarrow>
   (error + pydict) \<times> database option" where
  "post_leads EmailStr_call db authorization payload =
     (case get_current_customer db authorization of
        Inl e \<Rightarrow> (Inl e, db)
      | Inr customer \<Rightarrow> create_lead EmailStr_call db payload customer)"

definition get_leads :: "database option \<Rightarrow> string option \<Rightarrow> error + pydict list" where
  "get_leads db authorization =
     (case get_current_customer db authorization of
        Inl e \<Rightarrow> Inl e
      | Inr customer \<Rightarrow> list_leads db customer)"

definition post_feedback ::
  "database option \<Rightarrow> nat \<Rightarrow> string option \<Rightarrow> FeedbackCreate \<Rightarrow>
   (error + pydict) \<times> database option" where
  "post_feedback db now authorization payload =
     (case get_current_customer db authorization of
        Inl e \<Rightarrow> (Inl e, db)
      | Inr customer \<Rightarrow> submit_feedback db now payload customer)"

definition get_feedback ::
  "database option \<Rightarrow> string option \<Rightarrow> string \<Rightarrow> error + pydict list" where
  "get_feedback db authorization lid =
     (case get_current_customer db authorization of
        Inl e \<Rightarrow> Inl e
      | Inr customer \<Rightarrow> get_feedback_for_lead db lid customer)"

section \<open>Running the startup hook\<close>

text \<open>The dictionary of the record that the seeding step inserts.\<close>

definition default_admin :: pydict where
  "default_admin = [(''username'', VStr ''admin''), (''password_hash'', VStr ''admin''),
     (''role'', VStr ''admin''), (''is_active'', VBool True)]"

text \<open>
  The admin records named \<^verbatim>\<open>"admin"\<close> that a store holds, and the store after the startup
  hook has run \<open>n\<close> times in a row.
\<close>

definition admins_named_admin :: "database option \<Rightarrow> doc list" where
  "admins_named_admin db =
     (case db of
        None \<Rightarrow> []
      | Some d \<Rightarrow> find_many (coll d ''admin'') [(''username'', VStr ''admin'')])"

definition run_startup :: "nat \<Rightarrow> database option \<Rightarrow> database option" where
  "run_startup n db = ((\<lambda>x. snd (startup_event x)) ^^ n) db"

section \<open>Stores that differ in is_active only\<close>

text \<open>
  Two documents are the same but for is_active when they have the same identifier and the
  same keys in the same order, with equal values at every key other than
  \<^verbatim>\<open>"is_active"\<close>. Two stores are the same but for is_active when they generate the same
  next identifier and hold the same collections, equal except that the customers are
  the same but for is_active, one by one.
\<close>

definition same_but_is_active :: "doc \<Rightarrow> doc \<Rightarrow> bool" where
  "same_but_is_active c c' \<longleftrightarrow>
     doc_id c = doc_id c' \<and>
     list_all2 (\<lambda>(k, v) (k', v'). k = k' \<and> (k = ''is_active'' \<or> v = v'))
       (doc_fields c) (doc_fields c')"

definition stores_same_but_is_active :: "database \<Rightarrow> database \<Rightarrow> bool" where
  "stores_same_but_is_active d d' \<longleftrightarrow>
     next_oid d = next_oid d' \<and>
     list_all2 (\<lambda>(n, ds) (n', ds'). n = n' \<and>
         (if n = ''customer'' then list_all2 same_but_is_active ds ds' else ds = ds'))
       (colls d) (colls d')"

section \<open>A small store\<close>

text \<open>
  Two customers and one lead of the first, used to run the handlers on concrete requests.
\<close>

definition alice :: doc where
  "alice = \<lparr>doc_id = 1, doc_fields =
     [(''name'', VStr ''Alice''), (''email'', VStr ''a@x.com''),
      (''password_hash'', VStr ''pw1''), (''is_active'', VBool True)]\<rparr>"

definition bob :: doc where
  "bob = \<lparr>doc_id = 2, doc_fields =
     [(''name'', VStr ''Bob''), (''email'', VStr ''b@x.com''),
      (''password_hash'', VStr ''pw2''), (''is_active'', VBool False)]\<rparr>"

definition jane :: doc where
  "jane = \<lparr>doc_id = 3, doc_fields =
     [(''customer_id'', VStr (str_of_oid 1)), (''name'', VStr ''Jane''), (''email'', VNone),
      (''phone'', VNone), (''source'', VNone), (''status'', VStr ''new''), (''notes'', VNone)]\<rparr>"

definition db0 :: database where
  "db0 = \<lparr>colls = [(''customer'', [alice, bob]), (''lead'', [jane])], next_oid = 4\<rparr>"

text \<open>
  A validator to run the handlers with. It raises on a string that holds no \<^verbatim>\<open>@\<close>, as
  \<^verbatim>\<open>EmailStr\<close> does, and returns every other string unchanged. It is used on two addresses
  only: \<^verbatim>\<open>lee@example.com\<close>, which \<^verbatim>\<open>EmailStr\<close> accepts and returns as it is, and
  \<^verbatim>\<open>not-an-email\<close>, which it rejects.
\<close>

definition sample_EmailStr :: "string \<Rightarrow> error + string" where
  "sample_EmailStr s = (if CHR ''@'' \<in> set s then Inr s else Inl ValidationError)"

text \<open>Requests: a lead without and with an email, a lead with a malformed email.\<close>

definition kim :: LeadCreate where
  "kim = \<lparr>lc_name = ''Kim'', lc_email = None, lc_phone = None, lc_source = None\<rparr>"

definition lee :: LeadCreate where
  "lee = \<lparr>lc_name = ''Lee'', lc_email = Some ''lee@example.com'', lc_phone = Some ''555'',
          lc_source = None\<rparr>"

definition bad_lead :: LeadCreate where
  "bad_lead = \<lparr>lc_name = ''Max'', lc_email = Some ''not-an-email'', lc_phone = None,
               lc_source = None\<rparr>"

text \<open>Feedback on the lead of identifier 3: a rating of 5 with no disposition.\<close>

definition rate5 :: FeedbackCreate where
  "rate5 = \<lparr>fc_lead_id = str_of_oid 3, fc_rating = Some 5, fc_disposition = None,
            fc_comment = None\<rparr>"

text \<open>The small store with the is_active flag of both customers flipped.\<close>

definition db0_flipped :: database where
  "db0_flipped =
     \<lparr>colls = [(''customer'',
         [alice\<lparr>doc_fields := AList.update ''is_active'' (VBool False) (doc_fields alice)\<rparr>,
          bob\<lparr>doc_fields := AList.update ''is_active'' (VBool True) (doc_fields bob)\<rparr>]),
        (''lead'', [jane])], next_oid = 4\<rparr>"

section \<open>Identifiers and their text\<close>

lemma lt16_cases:
  "(d::nat) < 16 \<Longrightarrow>
   d = 0 \<or> d = 1 \<or> d = 2 \<or> d = 3 \<or> d = 4 \<or> d = 5 \<or> d = 6 \<or> d = 7 \<or> d = 8 \<or>
   d = 9 \<or> d = 10 \<or> d = 11 \<or> d = 12 \<or> d = 13 \<or> d = 14 \<or> d = 15"
  by arith

lemma unhex_hexdigit: "d < 16 \<Longrightarrow> unhex (hexdigit d) = Some d"
  by (drule lt16_cases) (elim disjE; simp add: unhex_def hexdigit_def)

lemma hexdigit_not_B: "d < 16 \<Longrightarrow> hexdigit d \<noteq> CHR ''B''"
  by (drule lt16_cases) (elim disjE; simp add: hexdigit_def)

lemma fromhex_append:
  "fromhex a (xs @ ys) = (case fromhex a xs of None \<Rightarrow> None | Some b \<Rightarrow> fromhex b ys)"
  by (induction xs arbitrary: a) (auto split: option.splits)

lemma fromhex_hexlify: "fromhex a (hexlify n v) = Some (a * 16 ^ n + v mod 16 ^ n)"
proof (induction n arbitrary: v)
  case 0
  then show ?case by simp
next
  case (Suc n)
  have "v mod (16 * 16 ^ n) = 16 * (v div 16 mod 16 ^ n) + v mod 16"
    by (rule mod_mult2_eq)
  then show ?case
    by (simp add: fromhex_append Suc unhex_hexdigit algebra_simps)
qed

lemma length_hexlify: "length (hexlify n v) = n"
  by (induction n arbitrary: v) auto

lemma hexlify_no_B: "CHR ''B'' \<notin> set (hexlify n v)"
  by (induction n arbitrary: v) (auto simp: hexdigit_not_B dest: sym)

text \<open>Parsing the text of an identifier gives the identifier back.\<close>

lemma ObjectId_roundtrip: "ObjectId_of_str (str_of_oid w) = Some w"
proof -
  have "unat w < 16 ^ 24"
    using unsigned_less [of w] by simp
  then show ?thesis
    by (simp add: ObjectId_of_str_def str_of_oid_def length_hexlify fromhex_hexlify)
qed

lemma str_of_oid_inj: "str_of_oid a = str_of_oid b \<Longrightarrow> a = b"
  by (metis ObjectId_roundtrip option.inject)

lemma str_of_oid_eq_iff: "str_of_oid a = str_of_oid b \<longleftrightarrow> a = b"
  by (auto dest: str_of_oid_inj)

lemma str_of_oid_no_B: "CHR ''B'' \<notin> set (str_of_oid w)"
  by (simp add: str_of_oid_def hexlify_no_B)

lemma length_str_of_oid: "length (str_of_oid w) = 24"
  by (simp add: str_of_oid_def length_hexlify)

lemma str_of_oid_nonempty: "str_of_oid w \<noteq> []"
  using length_str_of_oid [of w] by auto

section \<open>Removing the Bearer prefix\<close>

lemma str_replace_no_B: "CHR ''B'' \<notin> set s \<Longrightarrow> str_replace ''Bearer '' [] s = s"
  by (induction s) (auto simp: prefix_def)

lemma str_replace_Bearer:
  "str_replace ''Bearer '' [] (''Bearer '' @ s) = str_replace ''Bearer '' [] s"
  by simp

lemma str_replace_Bearers:
  "str_replace ''Bearer '' [] (concat (replicate n ''Bearer '') @ s) = str_replace ''Bearer '' [] s"
  by (induction n) simp_all

lemma str_replace_skip:
  "CHR ''B'' \<notin> set u \<Longrightarrow>
   str_replace ''Bearer '' [] (u @ s) = u @ str_replace ''Bearer '' [] s"
  by (induction u) (auto simp: prefix_def)

section \<open>Looking documents up\<close>

lemma find_one_Some:
  "find_one ds flt = Some c \<Longrightarrow> c \<in> set ds \<and> matches flt c"
  by (auto simp: find_one_def find_Some_iff)

lemma find_one_None: "find_one ds flt = None \<longleftrightarrow> (\<forall>c\<in>set ds. \<not> matches flt c)"
  by (auto simp: find_one_def find_None_iff)

lemma matches_id: "matches [(''_id'', VOid i)] c \<longleftrightarrow> doc_id c = i"
  by (auto simp: matches_def doc_lookup_def)

lemma find_one_unique:
  "c \<in> set ds \<Longrightarrow> matches flt c \<Longrightarrow> (\<forall>c'\<in>set ds. matches flt c' \<longrightarrow> c' = c) \<Longrightarrow>
   find_one ds flt = Some c"
proof (induction ds)
  case Nil
  then show ?case by simp
next
  case (Cons x xs)
  show ?case
  proof (cases "matches flt x")
    case True
    with Cons.prems(3) have "x = c" by simp
    with True show ?thesis by (simp add: find_one_def)
  next
    case False
    with Cons.prems(1,2) have mem: "c \<in> set xs" by auto
    from Cons.prems(3) have "\<forall>c'\<in>set xs. matches flt c' \<longrightarrow> c' = c" by simp
    from Cons.IH [OF mem Cons.prems(2) this] have "find_one xs flt = Some c" .
    with False show ?thesis by (simp add: find_one_def)
  qed
qed

lemma ObjectId_of_str_Nil: "ObjectId_of_str [] = None"
  by (simp add: ObjectId_of_str_def)

lemma get_current_unparsed:
  "ObjectId_of_str (str_replace ''Bearer '' [] a) = None \<Longrightarrow>
   get_current cname (Some d) (Some a) =
     Inl (HTTPException 401 (if a = [] then ''Missing token'' else ''Invalid token''))"
  by (simp add: get_current_def)

lemma get_current_parsed:
  "ObjectId_of_str (str_replace ''Bearer '' [] a) = Some oid \<Longrightarrow>
   get_current cname (Some d) (Some a) =
     (case find_one (coll d cname) [(''_id'', VOid oid)] of
        None \<Rightarrow> Inl (HTTPException 401 ''Invalid token'')
      | Some found \<Rightarrow> Inr found)"
proof -
  assume h: "ObjectId_of_str (str_replace ''Bearer '' [] a) = Some oid"
  have "a \<noteq> []"
  proof
    assume "a = []"
    with h show False by (simp add: ObjectId_of_str_Nil)
  qed
  with h show ?thesis by (simp add: get_current_def)
qed

lemma find_one_id_absent:
  "oid \<notin> doc_id ` set ds \<Longrightarrow> find_one ds [(''_id'', VOid oid)] = None"
  by (auto simp: find_one_None matches_id)

lemma find_one_id_present:
  "oid \<in> doc_id ` set ds \<Longrightarrow> \<exists>c. find_one ds [(''_id'', VOid oid)] = Some c \<and> c \<in> set ds \<and> doc_id c = oid"
proof -
  assume "oid \<in> doc_id ` set ds"
  then have "find_one ds [(''_id'', VOid oid)] \<noteq> None"
    by (auto simp: find_one_None matches_id)
  then obtain c where c: "find_one ds [(''_id'', VOid oid)] = Some c" by auto
  from find_one_Some [OF c] show ?thesis using c by (simp add: matches_id)
qed

lemma find_one_id_distinct:
  "c \<in> set ds \<Longrightarrow> distinct (map doc_id ds) \<Longrightarrow> find_one ds [(''_id'', VOid (doc_id c))] = Some c"
  by (rule find_one_unique) (auto simp: matches_id distinct_map dest: inj_onD)

lemma parse_Bearer: "ObjectId_of_str (str_replace ''Bearer '' [] (''Bearer '' @ str_of_oid i)) = Some i"
  by (simp add: str_replace_no_B str_of_oid_no_B ObjectId_roundtrip)

lemma parse_bare: "ObjectId_of_str (str_replace ''Bearer '' [] (str_of_oid i)) = Some i"
  by (simp add: str_replace_no_B str_of_oid_no_B ObjectId_roundtrip)

lemma db0_customers: "coll db0 ''customer'' = [alice, bob]"
  by (simp add: db0_def coll_def)

lemma db0_leads: "coll db0 ''lead'' = [jane]"
  by (simp add: db0_def coll_def)

section \<open>Token resolution\<close>

text \<open>
  Claim C4. Resolving the bearer token of a customer fails with status 500 when the store
  handle is absent; it fails with status 401 when the Authorization header is absent, when
  the token (the header without \<^verbatim>\<open>"Bearer "\<close>) is not the text of an identifier, and
  when no customer has that identifier; otherwise it returns a customer of the store whose
  identifier is the token's, which is the only one where identifiers are unique.
\<close>

theorem get_current_customer_resolution:
  "get_current_customer None authorization = Inl (HTTPException 500 ''Database not configured'') \<and>
   get_current_customer (Some d) None = Inl (HTTPException 401 ''Missing token'') \<and>
   (ObjectId_of_str (str_replace ''Bearer '' [] a) = None \<longrightarrow>
      (\<exists>detail. get_current_customer (Some d) (Some a) = Inl (HTTPException 401 detail))) \<and>
   (ObjectId_of_str (str_replace ''Bearer '' [] a) = Some oid \<and>
    oid \<notin> doc_id ` set (coll d ''customer'') \<longrightarrow>
      get_current_customer (Some d) (Some a) = Inl (HTTPException 401 ''Invalid token'')) \<and>
   (ObjectId_of_str (str_replace ''Bearer '' [] a) = Some oid \<and>
    oid \<in> doc_id ` set (coll d ''customer'') \<longrightarrow>
      (\<exists>c. get_current_customer (Some d) (Some a) = Inr c \<and>
           c \<in> set (coll d ''customer'') \<and> doc_id c = oid)) \<and>
   (ObjectId_of_str (str_replace ''Bearer '' [] a) = Some (doc_id c) \<and>
    c \<in> set (coll d ''customer'') \<and> distinct (map doc_id (coll d ''customer'')) \<longrightarrow>
      get_current_customer (Some d) (Some a) = Inr c)"
proof (intro conjI impI)
  show "get_current_customer None authorization = Inl (HTTPException 500 ''Database not configured'')"
    by (simp add: get_current_customer_def get_current_def)
  show "get_current_customer (Some d) None = Inl (HTTPException 401 ''Missing token'')"
    by (simp add: get_current_customer_def get_current_def)
next
  assume "ObjectId_of_str (str_replace ''Bearer '' [] a) = None"
  from get_current_unparsed [OF this, of "''customer''" d]
  show "\<exists>detail. get_current_customer (Some d) (Some a) = Inl (HTTPException 401 detail)"
    unfolding get_current_customer_def by blast
next
  assume h: "ObjectId_of_str (str_replace ''Bearer '' [] a) = Some oid \<and>
    oid \<notin> doc_id ` set (coll d ''customer'')"
  then have p: "ObjectId_of_str (str_replace ''Bearer '' [] a) = Some oid" by simp
  from h have "find_one (coll d ''customer'') [(''_id'', VOid oid)] = None"
    by (simp add: find_one_id_absent)
  with get_current_parsed [OF p, of "''customer''" d]
  show "get_current_customer (Some d) (Some a) = Inl (HTTPException 401 ''Invalid token'')"
    unfolding get_current_customer_def by simp
next
  assume h: "ObjectId_of_str (str_replace ''Bearer '' [] a) = Some oid \<and>
    oid \<in> doc_id ` set (coll d ''customer'')"
  then have p: "ObjectId_of_str (str_replace ''Bearer '' [] a) = Some oid" by simp
  from h obtain c where c: "find_one (coll d ''customer'') [(''_id'', VOid oid)] = Some c"
    "c \<in> set (coll d ''customer'')" "doc_id c = oid"
    using find_one_id_present by blast
  with get_current_parsed [OF p, of "''customer''" d]
  have "get_current_customer (Some d) (Some a) = Inr c"
    unfolding get_current_customer_def by simp
  with c show "\<exists>c. get_current_customer (Some d) (Some a) = Inr c \<and>
           c \<in> set (coll d ''customer'') \<and> doc_id c = oid"
    by blast
next
  assume h: "ObjectId_of_str (str_replace ''Bearer '' [] a) = Some (doc_id c) \<and>
    c \<in> set (coll d ''customer'') \<and> distinct (map doc_id (coll d ''customer''))"
  then have p: "ObjectId_of_str (str_replace ''Bearer '' [] a) = Some (doc_id c)" by simp
  from h have "find_one (coll d ''customer'') [(''_id'', VOid (doc_id c))] = Some c"
    by (simp add: find_one_id_distinct)
  with get_current_parsed [OF p, of "''customer''" d]
  show "get_current_customer (Some d) (Some a) = Inr c"
    unfolding get_current_customer_def by simp
qed

theorem get_current_customer_resolution_witness:
  "get_current_customer (Some db0) (Some (''Bearer '' @ str_of_oid 1)) = Inr alice \<and>
   (\<exists>detail. get_current_customer (Some db0) (Some ''Bearer xyz'') = Inl (HTTPException 401 detail)) \<and>
   get_current_customer (Some db0) (Some (''Bearer '' @ str_of_oid 9))
     = Inl (HTTPException 401 ''Invalid token'')"
proof -
  have a: "ObjectId_of_str (str_replace ''Bearer '' [] (''Bearer '' @ str_of_oid 1)) = Some (doc_id alice) \<and>
    alice \<in> set (coll db0 ''customer'') \<and> distinct (map doc_id (coll db0 ''customer''))"
    by (simp add: parse_Bearer parse_bare db0_customers alice_def bob_def)
  have b: "ObjectId_of_str (str_replace ''Bearer '' [] ''Bearer xyz'') = None"
    by (simp add: ObjectId_of_str_def)
  have c: "ObjectId_of_str (str_replace ''Bearer '' [] (''Bearer '' @ str_of_oid 9)) = Some 9 \<and>
    9 \<notin> doc_id ` set (coll db0 ''customer'')"
    by (simp add: parse_Bearer parse_bare db0_customers alice_def bob_def)
  from a get_current_customer_resolution [of None db0 "''Bearer '' @ str_of_oid 1" 1 alice]
  have 1: "get_current_customer (Some db0) (Some (''Bearer '' @ str_of_oid 1)) = Inr alice"
    by blast
  from b get_current_customer_resolution [of None db0 "''Bearer xyz''" 0 alice]
  have 2: "\<exists>detail. get_current_customer (Some db0) (Some ''Bearer xyz'') = Inl (HTTPException 401 detail)"
    by blast
  from c get_current_customer_resolution [of None db0 "''Bearer '' @ str_of_oid 9" 9 alice]
  have 3: "get_current_customer (Some db0) (Some (''Bearer '' @ str_of_oid 9))
     = Inl (HTTPException 401 ''Invalid token'')"
    by blast
  from 1 2 3 show ?thesis by blast
qed

section \<open>Admin seeding never fails\<close>

text \<open>
  Claim C8. Whatever the calls of the seeding step do, also when any of them raises,
  \<^verbatim>\<open>ensure_default_admin\<close> returns normally, and so does the startup hook that calls it.
  When the lookup raises, or the construction of the record raises, or the insertion
  raises without writing, or the store handle is absent, the store is left as it was.
\<close>

theorem ensure_default_admin_swallows:
  "fst (ensure_default_admin_with find_one_call Admin_call create_document_call db) = Inr () \<and>
   fst (ensure_default_admin db) = Inr () \<and>
   fst (startup_event db) = Inr () \<and>
   ensure_default_admin_with (\<lambda>d cname flt. Inl e) Admin_call create_document_call (Some d)
     = (Inr (), Some d) \<and>
   ensure_default_admin_with (\<lambda>d cname flt. Inr None) (\<lambda>u p r a. Inl e) create_document_call
     (Some d) = (Inr (), Some d) \<and>
   ensure_default_admin_with (\<lambda>d cname flt. Inr None) mk_Admin (\<lambda>db cname data. (Inl e, db))
     (Some d) = (Inr (), Some d) \<and>
   ensure_default_admin None = (Inr (), None)"
proof -
  have gen: "fst (ensure_default_admin_with f g h x) = Inr ()" for f g h x
    by (simp add: ensure_default_admin_with_def Let_def
        split: option.split sum.split prod.split)
  have a: "ensure_default_admin_with (\<lambda>d cname flt. Inl e) Admin_call create_document_call
     (Some d) = (Inr (), Some d)"
    by (simp add: ensure_default_admin_with_def)
  have b: "ensure_default_admin_with (\<lambda>d cname flt. Inr None) (\<lambda>u p r a. Inl e)
     create_document_call (Some d) = (Inr (), Some d)"
    by (simp add: ensure_default_admin_with_def)
  have c: "ensure_default_admin_with (\<lambda>d cname flt. Inr None) mk_Admin
     (\<lambda>db cname data. (Inl e, db)) (Some d) = (Inr (), Some d)"
    by (simp add: ensure_default_admin_with_def mk_Admin_def)
  have n: "ensure_default_admin None = (Inr (), None)"
    by (simp add: ensure_default_admin_def ensure_default_admin_with_def)
  from gen a b c n show ?thesis
    by (simp add: ensure_default_admin_def startup_event_def)
qed

theorem ensure_default_admin_swallows_witness:
  "fst (startup_event (Some db0)) = Inr () \<and> fst (startup_event None) = Inr () \<and>
   ensure_default_admin_with (\<lambda>d cname flt. Inl StoreError) mk_Admin create_document (Some db0)
     = (Inr (), Some db0)"
  using ensure_default_admin_swallows [of _ mk_Admin create_document "Some db0" StoreError db0]
    ensure_default_admin_swallows [of _ mk_Admin create_document None StoreError db0]
  by simp

section \<open>The Bearer prefix\<close>

lemma get_current_cong:
  "str_replace ''Bearer '' [] a = str_replace ''Bearer '' [] b \<Longrightarrow> a \<noteq> [] \<Longrightarrow> b \<noteq> [] \<Longrightarrow>
   get_current cname db (Some a) = get_current cname db (Some b)"
  by (simp add: get_current_def split: option.split)

lemma str_replace_segments:
  "list_all (\<lambda>u. CHR ''B'' \<notin> set u) us \<Longrightarrow> CHR ''B'' \<notin> set v \<Longrightarrow>
   str_replace ''Bearer '' [] (concat (map (\<lambda>u. u @ ''Bearer '') us) @ v) = concat us @ v"
proof (induction us)
  case Nil
  then show ?case by (simp add: str_replace_no_B)
next
  case (Cons u us)
  let ?rest = "concat (map (\<lambda>u. u @ ''Bearer '') us) @ v"
  from Cons.prems have u: "CHR ''B'' \<notin> set u" and us: "list_all (\<lambda>u. CHR ''B'' \<notin> set u) us"
    by simp_all
  have "str_replace ''Bearer '' [] (u @ (''Bearer '' @ ?rest))
      = u @ str_replace ''Bearer '' [] (''Bearer '' @ ?rest)"
    by (rule str_replace_skip [OF u])
  also have "\<dots> = u @ str_replace ''Bearer '' [] ?rest"
    by (simp only: str_replace_Bearer)
  also have "\<dots> = u @ concat us @ v"
    by (simp only: Cons.IH [OF us Cons.prems(2)])
  finally show ?case by simp
qed

lemma get_current_Bearers:
  "get_current cname db (Some (concat (replicate n ''Bearer '') @ str_of_oid i))
     = get_current cname db (Some (''Bearer '' @ str_of_oid i))"
proof -
  have "concat (replicate n ''Bearer '') @ str_of_oid i \<noteq> []"
    by (simp add: str_of_oid_nonempty)
  moreover have "str_replace ''Bearer '' [] (concat (replicate n ''Bearer '') @ str_of_oid i)
     = str_replace ''Bearer '' [] (''Bearer '' @ str_of_oid i)"
    by (simp only: str_replace_Bearers str_replace_Bearer)
  ultimately show ?thesis
    by (intro get_current_cong) simp_all
qed

text \<open>
  Claim C9. The prefix \<^verbatim>\<open>"Bearer "\<close> is not required: a header made of the text of an
  identifier alone, or of that text after the prefix repeated any number of times,
  resolves as the header \<^verbatim>\<open>"Bearer <id>"\<close> does, for customers and for admins, and all of
  them resolve to the record of the store that has this identifier. Every occurrence of
  the prefix goes: in a header whose other parts hold no \<^verbatim>\<open>B\<close>, what remains is those
  parts, joined.
\<close>

theorem bearer_prefix_optional:
  "get_current_customer db (Some (concat (replicate n ''Bearer '') @ str_of_oid i))
     = get_current_customer db (Some (''Bearer '' @ str_of_oid i)) \<and>
   get_current_customer db (Some (str_of_oid i))
     = get_current_customer db (Some (''Bearer '' @ str_of_oid i)) \<and>
   get_current_admin db (Some (concat (replicate n ''Bearer '') @ str_of_oid i))
     = get_current_admin db (Some (''Bearer '' @ str_of_oid i)) \<and>
   get_current_admin db (Some (str_of_oid i))
     = get_current_admin db (Some (''Bearer '' @ str_of_oid i)) \<and>
   (find_one (coll d ''customer'') [(''_id'', VOid i)] = Some c \<longrightarrow>
      get_current_customer (Some d) (Some (str_of_oid i)) = Inr c \<and>
      get_current_customer (Some d) (Some (''Bearer '' @ str_of_oid i)) = Inr c) \<and>
   (list_all (\<lambda>u. CHR ''B'' \<notin> set u) us \<and> CHR ''B'' \<notin> set v \<longrightarrow>
      str_replace ''Bearer '' [] (concat (map (\<lambda>u. u @ ''Bearer '') us) @ v) = concat us @ v)"
proof (intro conjI impI)
  show "get_current_customer db (Some (concat (replicate n ''Bearer '') @ str_of_oid i))
     = get_current_customer db (Some (''Bearer '' @ str_of_oid i))"
    unfolding get_current_customer_def by (rule get_current_Bearers)
  show "get_current_customer db (Some (str_of_oid i))
     = get_current_customer db (Some (''Bearer '' @ str_of_oid i))"
    unfolding get_current_customer_def using get_current_Bearers [of _ _ 0] by simp
  show "get_current_admin db (Some (concat (replicate n ''Bearer '') @ str_of_oid i))
     = get_current_admin db (Some (''Bearer '' @ str_of_oid i))"
    unfolding get_current_admin_def by (rule get_current_Bearers)
  show "get_current_admin db (Some (str_of_oid i))
     = get_current_admin db (Some (''Bearer '' @ str_of_oid i))"
    unfolding get_current_admin_def using get_current_Bearers [of _ _ 0] by simp
next
  assume f: "find_one (coll d ''customer'') [(''_id'', VOid i)] = Some c"
  from get_current_parsed [OF parse_bare, of "''customer''" d i] f
  show "get_current_customer (Some d) (Some (str_of_oid i)) = Inr c"
    unfolding get_current_customer_def by simp
  from get_current_parsed [OF parse_Bearer, of "''customer''" d i] f
  show "get_current_customer (Some d) (Some (''Bearer '' @ str_of_oid i)) = Inr c"
    unfolding get_current_customer_def by simp
next
  assume "list_all (\<lambda>u. CHR ''B'' \<notin> set u) us \<and> CHR ''B'' \<notin> set v"
  then show "str_replace ''Bearer '' [] (concat (map (\<lambda>u. u @ ''Bearer '') us) @ v) = concat us @ v"
    by (simp add: str_replace_segments del: str_replace.simps)
qed

theorem bearer_prefix_optional_witness:
  "get_current_customer (Some db0) (Some (str_of_oid 2)) = Inr bob \<and>
   get_current_customer (Some db0) (Some (''Bearer '' @ str_of_oid 2)) = Inr bob \<and>
   get_current_customer (Some db0) (Some (''Bearer Bearer Bearer '' @ str_of_oid 2)) = Inr bob \<and>
   str_replace ''Bearer '' [] ''xBearer yBearer z'' = ''xyz''"
proof -
  have f: "find_one (coll db0 ''customer'') [(''_id'', VOid 2)] = Some bob"
    by (simp add: db0_customers find_one_def matches_id alice_def bob_def)
  have s: "list_all (\<lambda>u. CHR ''B'' \<notin> set u) [''x'', ''y''] \<and> CHR ''B'' \<notin> set ''z''"
    by simp
  note t = bearer_prefix_optional [of "Some db0" 3 2 db0 bob "[''x'', ''y'']" "''z''"]
  have e: "concat (replicate 3 ''Bearer '') = ''Bearer Bearer Bearer ''"
    by (simp add: numeral_3_eq_3)
  from t [THEN conjunct1]
  have 1: "get_current_customer (Some db0) (Some (''Bearer Bearer Bearer '' @ str_of_oid 2))
     = get_current_customer (Some db0) (Some (''Bearer '' @ str_of_oid 2))"
    by (simp only: e)
  note 2 = t [THEN conjunct2, THEN conjunct2, THEN conjunct2, THEN conjunct2, THEN conjunct1,
      THEN mp, OF f]
  from t [THEN conjunct2, THEN conjunct2, THEN conjunct2, THEN conjunct2, THEN conjunct2,
      THEN mp, OF s]
  have 3: "str_replace ''Bearer '' [] ''xBearer yBearer z'' = ''xyz''"
    by (simp del: str_replace.simps)
  from 1 2 3 show ?thesis by (simp only: simp_thms)
qed

section \<open>Login\<close>

lemma login_found:
  "find_one (coll d ''customer'') [(''email'', VStr (lr_email payload))] = Some c \<Longrightarrow>
   login (Some d) payload =
     (if VStr (lr_password payload) \<noteq> doc_get c ''password_hash''
      then Inl (HTTPException 401 ''Invalid credentials'')
      else mk_LoginResponse (str_of_oid (doc_id c)) (str_of_oid (doc_id c))
             (doc_get_default c ''name'' (VStr ''User'')))"
  by (simp add: login_def get_customer_by_email_def Let_def)

lemma login_not_found:
  "find_one (coll d ''customer'') [(''email'', VStr (lr_email payload))] = None \<Longrightarrow>
   login (Some d) payload = Inl (HTTPException 401 ''Invalid credentials'')"
  by (simp add: login_def get_customer_by_email_def)

text \<open>
  Claim C3. For a stored customer whose email identifies it (no other customer of the store
  has that email), login with the email and a password equal to the stored password_hash
  returns the text of the customer's identifier as token and as customer_id, with the
  customer's name. With an email that no customer has, or a password that differs from
  the stored password_hash, login fails with status 401.
\<close>

theorem login_correct:
  "(c \<in> set (coll d ''customer'') \<and>
    (\<forall>c'\<in>set (coll d ''customer''). doc_lookup c' ''email'' = Some (VStr e) \<longrightarrow> c' = c) \<and>
    doc_lookup c ''email'' = Some (VStr e) \<and>
    doc_lookup c ''password_hash'' = Some (VStr pw) \<and>
    doc_lookup c ''name'' = Some (VStr n) \<longrightarrow>
      login (Some d) \<lparr>lr_email = e, lr_password = pw\<rparr>
        = Inr \<lparr>token = str_of_oid (doc_id c), customer_id = str_of_oid (doc_id c), name = n\<rparr>) \<and>
   ((\<forall>c'\<in>set (coll d ''customer''). doc_lookup c' ''email'' \<noteq> Some (VStr e)) \<longrightarrow>
      login (Some d) \<lparr>lr_email = e, lr_password = pw'\<rparr>
        = Inl (HTTPException 401 ''Invalid credentials'')) \<and>
   (c \<in> set (coll d ''customer'') \<and>
    (\<forall>c'\<in>set (coll d ''customer''). doc_lookup c' ''email'' = Some (VStr e) \<longrightarrow> c' = c) \<and>
    doc_lookup c ''email'' = Some (VStr e) \<and>
    doc_get c ''password_hash'' \<noteq> VStr pw' \<longrightarrow>
      login (Some d) \<lparr>lr_email = e, lr_password = pw'\<rparr>
        = Inl (HTTPException 401 ''Invalid credentials''))"
proof (intro conjI impI)
  assume h: "c \<in> set (coll d ''customer'') \<and>
    (\<forall>c'\<in>set (coll d ''customer''). doc_lookup c' ''email'' = Some (VStr e) \<longrightarrow> c' = c) \<and>
    doc_lookup c ''email'' = Some (VStr e) \<and>
    doc_lookup c ''password_hash'' = Some (VStr pw) \<and>
    doc_lookup c ''name'' = Some (VStr n)"
  then have mem: "c \<in> set (coll d ''customer'')"
    and m: "matches [(''email'', VStr e)] c"
    and u: "\<forall>c'\<in>set (coll d ''customer''). matches [(''email'', VStr e)] c' \<longrightarrow> c' = c"
    by (simp_all add: matches_def)
  from find_one_unique [OF mem m u]
  have f: "find_one (coll d ''customer'')
      [(''email'', VStr (lr_email \<lparr>lr_email = e, lr_password = pw\<rparr>))] = Some c"
    by simp
  from h have "doc_get c ''password_hash'' = VStr pw"
    and "doc_get_default c ''name'' (VStr ''User'') = VStr n"
    by (simp_all add: doc_get_def doc_get_default_def)
  with login_found [OF f]
  show "login (Some d) \<lparr>lr_email = e, lr_password = pw\<rparr>
        = Inr \<lparr>token = str_of_oid (doc_id c), customer_id = str_of_oid (doc_id c), name = n\<rparr>"
    by (simp add: mk_LoginResponse_def)
next
  assume "\<forall>c'\<in>set (coll d ''customer''). doc_lookup c' ''email'' \<noteq> Some (VStr e)"
  then have "find_one (coll d ''customer'')
      [(''email'', VStr (lr_email \<lparr>lr_email = e, lr_password = pw'\<rparr>))] = None"
    by (simp add: find_one_None matches_def)
  from login_not_found [OF this]
  show "login (Some d) \<lparr>lr_email = e, lr_password = pw'\<rparr>
        = Inl (HTTPException 401 ''Invalid credentials'')" .
next
  assume h: "c \<in> set (coll d ''customer'') \<and>
    (\<forall>c'\<in>set (coll d ''customer''). doc_lookup c' ''email'' = Some (VStr e) \<longrightarrow> c' = c) \<and>
    doc_lookup c ''email'' = Some (VStr e) \<and>
    doc_get c ''password_hash'' \<noteq> VStr pw'"
  then have mem: "c \<in> set (coll d ''customer'')"
    and m: "matches [(''email'', VStr e)] c"
    and u: "\<forall>c'\<in>set (coll d ''customer''). matches [(''email'', VStr e)] c' \<longrightarrow> c' = c"
    by (simp_all add: matches_def)
  from find_one_unique [OF mem m u]
  have f: "find_one (coll d ''customer'')
      [(''email'', VStr (lr_email \<lparr>lr_email = e, lr_password = pw'\<rparr>))] = Some c"
    by simp
  from h have "VStr pw' \<noteq> doc_get c ''password_hash''" by auto
  with login_found [OF f]
  show "login (Some d) \<lparr>lr_email = e, lr_password = pw'\<rparr>
        = Inl (HTTPException 401 ''Invalid credentials'')"
    by simp
qed

theorem login_correct_witness:
  "login (Some db0) \<lparr>lr_email = ''a@x.com'', lr_password = ''pw1''\<rparr>
     = Inr \<lparr>token = str_of_oid 1, customer_id = str_of_oid 1, name = ''Alice''\<rparr> \<and>
   login (Some db0) \<lparr>lr_email = ''a@x.com'', lr_password = ''pw2''\<rparr>
     = Inl (HTTPException 401 ''Invalid credentials'') \<and>
   login (Some db0) \<lparr>lr_email = ''nobody@x.com'', lr_password = ''pw1''\<rparr>
     = Inl (HTTPException 401 ''Invalid credentials'')"
proof -
  have mem: "alice \<in> set (coll db0 ''customer'')"
    by (simp add: db0_customers)
  have uniq: "\<forall>c'\<in>set (coll db0 ''customer'').
      doc_lookup c' ''email'' = Some (VStr ''a@x.com'') \<longrightarrow> c' = alice"
    by (simp add: db0_customers doc_lookup_def bob_def)
  have fields: "doc_lookup alice ''email'' = Some (VStr ''a@x.com'') \<and>
      doc_lookup alice ''password_hash'' = Some (VStr ''pw1'') \<and>
      doc_lookup alice ''name'' = Some (VStr ''Alice'') \<and> doc_id alice = 1"
    by (simp add: doc_lookup_def alice_def)
  have wrong: "doc_get alice ''password_hash'' \<noteq> VStr ''pw2''"
    by (simp add: doc_get_def doc_lookup_def alice_def)
  have none: "\<forall>c'\<in>set (coll db0 ''customer'').
      doc_lookup c' ''email'' \<noteq> Some (VStr ''nobody@x.com'')"
    by (simp add: db0_customers doc_lookup_def alice_def bob_def)
  note t = login_correct [of alice db0 "''a@x.com''" "''pw1''" "''Alice''" "''pw2''"]
  note t' = login_correct [of alice db0 "''nobody@x.com''" "''pw1''" "''Alice''" "''pw1''"]
  from t [THEN conjunct1, THEN mp] mem uniq fields
  have 1: "login (Some db0) \<lparr>lr_email = ''a@x.com'', lr_password = ''pw1''\<rparr>
     = Inr \<lparr>token = str_of_oid 1, customer_id = str_of_oid 1, name = ''Alice''\<rparr>"
    by simp
  from t [THEN conjunct2, THEN conjunct2, THEN mp] mem uniq fields wrong
  have 2: "login (Some db0) \<lparr>lr_email = ''a@x.com'', lr_password = ''pw2''\<rparr>
     = Inl (HTTPException 401 ''Invalid credentials'')"
    by simp
  from t' [THEN conjunct2, THEN conjunct1, THEN mp, OF none]
  have 3: "login (Some db0) \<lparr>lr_email = ''nobody@x.com'', lr_password = ''pw1''\<rparr>
     = Inl (HTTPException 401 ''Invalid credentials'')" .
  from 1 2 3 show ?thesis by (simp only: simp_thms)
qed

section \<open>Inserting documents\<close>

lemma coll_insert_one:
  "coll (fst (insert_one d cname data)) c =
     (if c = cname then coll d cname @ [\<lparr>doc_id = next_oid d, doc_fields = data\<rparr>] else coll d c)"
  by (simp add: insert_one_def coll_def Let_def update_conv')

lemma snd_insert_one: "snd (insert_one d cname data) = next_oid d"
  by (simp add: insert_one_def Let_def)

lemma create_document_Some:
  "create_document (Some d) cname data =
     (Inr (str_of_oid (next_oid d)), Some (fst (insert_one d cname data)))"
  by (simp add: create_document_def insert_one_def Let_def)

lemma find_one_None_many: "find_one ds flt = None \<longleftrightarrow> find_many ds flt = []"
  by (auto simp: find_one_def find_many_def find_None_iff filter_empty_conv)

section \<open>Admin seeding\<close>

lemma matches_default_admin:
  "matches [(''username'', VStr ''admin'')] \<lparr>doc_id = i, doc_fields = default_admin\<rparr>"
  by (simp add: matches_def doc_lookup_def default_admin_def)

lemma ensure_default_admin_absent:
  "find_one (coll d ''admin'') [(''username'', VStr ''admin'')] = None \<Longrightarrow>
   ensure_default_admin (Some d) = (Inr (), Some (fst (insert_one d ''admin'' default_admin)))"
  by (simp add: ensure_default_admin_def ensure_default_admin_with_def create_document_Some
      mk_Admin_def Admin_dump_def default_admin_def)

lemma ensure_default_admin_present:
  "find_one (coll d ''admin'') [(''username'', VStr ''admin'')] \<noteq> None \<Longrightarrow>
   ensure_default_admin (Some d) = (Inr (), Some d)"
  by (auto simp: ensure_default_admin_def ensure_default_admin_with_def)

lemma ensure_default_admin_None: "ensure_default_admin None = (Inr (), None)"
  by (simp add: ensure_default_admin_def ensure_default_admin_with_def)

lemma admins_after_insert:
  "admins_named_admin (Some (fst (insert_one d ''admin'' default_admin)))
     = admins_named_admin (Some d) @ [\<lparr>doc_id = next_oid d, doc_fields = default_admin\<rparr>]"
  by (simp add: admins_named_admin_def coll_insert_one find_many_def matches_default_admin)

lemma admins_after_seed:
  "length (admins_named_admin (snd (ensure_default_admin (Some d))))
     = (if admins_named_admin (Some d) = [] then 1 else length (admins_named_admin (Some d)))"
proof (cases "find_one (coll d ''admin'') [(''username'', VStr ''admin'')] = None")
  case True
  then have "admins_named_admin (Some d) = []"
    by (simp add: admins_named_admin_def find_one_None_many)
  with True show ?thesis
    by (simp add: ensure_default_admin_absent admins_after_insert)
next
  case False
  then have "admins_named_admin (Some d) \<noteq> []"
    by (simp add: admins_named_admin_def find_one_None_many)
  with False show ?thesis
    by (simp add: ensure_default_admin_present)
qed

lemma seed_keeps_at_most_one:
  "length (admins_named_admin db) \<le> 1 \<Longrightarrow>
   length (admins_named_admin (snd (ensure_default_admin db))) \<le> 1"
proof (cases db)
  case None
  then show ?thesis by (simp add: ensure_default_admin_None admins_named_admin_def)
next
  case (Some d)
  assume "length (admins_named_admin db) \<le> 1"
  with Some show ?thesis by (simp add: admins_after_seed)
qed

lemma seed_idempotent:
  "snd (ensure_default_admin (snd (ensure_default_admin db))) = snd (ensure_default_admin db)"
proof (cases db)
  case None
  then show ?thesis by (simp add: ensure_default_admin_None)
next
  case (Some d)
  show ?thesis
  proof (cases "find_one (coll d ''admin'') [(''username'', VStr ''admin'')] = None")
    case True
    let ?d' = "fst (insert_one d ''admin'' default_admin)"
    have "admins_named_admin (Some ?d') \<noteq> []"
      by (simp add: admins_after_insert)
    then have "find_one (coll ?d' ''admin'') [(''username'', VStr ''admin'')] \<noteq> None"
      by (simp add: admins_named_admin_def find_one_None_many)
    with True Some show ?thesis
      by (simp add: ensure_default_admin_absent ensure_default_admin_present)
  next
    case False
    with Some show ?thesis by (simp add: ensure_default_admin_present)
  qed
qed

lemma run_startup_Suc: "run_startup (Suc n) db = snd (ensure_default_admin (run_startup n db))"
  by (simp add: run_startup_def startup_event_def)

lemma run_startup_at_most_one:
  "length (admins_named_admin db) \<le> 1 \<Longrightarrow> length (admins_named_admin (run_startup n db)) \<le> 1"
proof (induction n)
  case 0
  then show ?case by (simp add: run_startup_def)
next
  case (Suc n)
  then show ?case by (simp only: run_startup_Suc seed_keeps_at_most_one)
qed

lemma run_startup_fixed: "run_startup (Suc n) db = run_startup 1 db"
proof (induction n)
  case 0
  then show ?case by simp
next
  case (Suc n)
  have "run_startup (Suc (Suc n)) db = snd (ensure_default_admin (run_startup (Suc n) db))"
    by (rule run_startup_Suc)
  also have "\<dots> = snd (ensure_default_admin (run_startup 1 db))"
    by (simp only: Suc)
  also have "\<dots> = run_startup 1 db"
    by (simp add: run_startup_def startup_event_def seed_idempotent)
  finally show ?case .
qed

text \<open>
  Claim C5. Admin seeding is idempotent: a second run changes nothing, any number of runs
  in a row leaves the store that one run leaves, and a store with at most one record
  named \<^verbatim>\<open>"admin"\<close> never comes to hold two. A run inserts a record with username
  \<^verbatim>\<open>"admin"\<close>, password_hash \<^verbatim>\<open>"admin"\<close> and is_active true when no record with that
  username exists, touching no other collection, and leaves the store unchanged otherwise.
\<close>

theorem admin_seeding_idempotent:
  "snd (ensure_default_admin (snd (ensure_default_admin db))) = snd (ensure_default_admin db) \<and>
   run_startup (Suc n) db = run_startup 1 db \<and>
   (length (admins_named_admin db) \<le> 1 \<longrightarrow>
      length (admins_named_admin (run_startup n db)) \<le> 1) \<and>
   (find_one (coll d ''admin'') [(''username'', VStr ''admin'')] = None \<longrightarrow>
      (\<exists>d'. ensure_default_admin (Some d) = (Inr (), Some d') \<and>
         coll d' ''admin'' = coll d ''admin'' @
           [\<lparr>doc_id = next_oid d, doc_fields =
               [(''username'', VStr ''admin''), (''password_hash'', VStr ''admin''),
                (''role'', VStr ''admin''), (''is_active'', VBool True)]\<rparr>] \<and>
         (\<forall>c. c \<noteq> ''admin'' \<longrightarrow> coll d' c = coll d c) \<and>
         length (admins_named_admin (Some d')) = 1)) \<and>
   (find_one (coll d ''admin'') [(''username'', VStr ''admin'')] \<noteq> None \<longrightarrow>
      ensure_default_admin (Some d) = (Inr (), Some d)) \<and>
   ensure_default_admin None = (Inr (), None)"
proof (intro conjI impI)
  show "snd (ensure_default_admin (snd (ensure_default_admin db))) = snd (ensure_default_admin db)"
    by (rule seed_idempotent)
  show "run_startup (Suc n) db = run_startup 1 db"
    by (rule run_startup_fixed)
  show "ensure_default_admin None = (Inr (), None)"
    by (rule ensure_default_admin_None)
next
  assume "length (admins_named_admin db) \<le> 1"
  then show "length (admins_named_admin (run_startup n db)) \<le> 1"
    by (rule run_startup_at_most_one)
next
  assume "find_one (coll d ''admin'') [(''username'', VStr ''admin'')] \<noteq> None"
  then show "ensure_default_admin (Some d) = (Inr (), Some d)"
    by (rule ensure_default_admin_present)
next
  assume absent: "find_one (coll d ''admin'') [(''username'', VStr ''admin'')] = None"
  let ?d' = "fst (insert_one d ''admin'' default_admin)"
  have 1: "ensure_default_admin (Some d) = (Inr (), Some ?d')"
    by (rule ensure_default_admin_absent [OF absent])
  have 2: "coll ?d' ''admin'' = coll d ''admin'' @
           [\<lparr>doc_id = next_oid d, doc_fields =
               [(''username'', VStr ''admin''), (''password_hash'', VStr ''admin''),
                (''role'', VStr ''admin''), (''is_active'', VBool True)]\<rparr>]"
    by (simp add: coll_insert_one default_admin_def)
  have 3: "\<forall>c. c \<noteq> ''admin'' \<longrightarrow> coll ?d' c = coll d c"
    by (simp add: coll_insert_one)
  from absent have "admins_named_admin (Some d) = []"
    by (simp add: admins_named_admin_def find_one_None_many)
  then have 4: "length (admins_named_admin (Some ?d')) = 1"
    by (simp add: admins_after_insert)
  from 1 2 3 4
  show "\<exists>d'. ensure_default_admin (Some d) = (Inr (), Some d') \<and>
         coll d' ''admin'' = coll d ''admin'' @
           [\<lparr>doc_id = next_oid d, doc_fields =
               [(''username'', VStr ''admin''), (''password_hash'', VStr ''admin''),
                (''role'', VStr ''admin''), (''is_active'', VBool True)]\<rparr>] \<and>
         (\<forall>c. c \<noteq> ''admin'' \<longrightarrow> coll d' c = coll d c) \<and>
         length (admins_named_admin (Some d')) = 1"
    by blast
qed

lemma db0_admins: "coll db0 ''admin'' = []"
  by (simp add: db0_def coll_def)

lemma db0_next: "next_oid db0 = 4"
  by (simp add: db0_def)

theorem admin_seeding_idempotent_witness:
  "length (admins_named_admin (run_startup 2 (Some db0))) \<le> 1 \<and>
   run_startup (Suc 1) (Some db0) = run_startup 1 (Some db0) \<and>
   (\<exists>d'. ensure_default_admin (Some db0) = (Inr (), Some d') \<and>
      coll d' ''admin'' =
        [\<lparr>doc_id = 4, doc_fields =
            [(''username'', VStr ''admin''), (''password_hash'', VStr ''admin''),
             (''role'', VStr ''admin''), (''is_active'', VBool True)]\<rparr>] \<and>
      coll d' ''customer'' = [alice, bob] \<and>
      ensure_default_admin (Some d') = (Inr (), Some d'))"
proof -
  have absent: "find_one (coll db0 ''admin'') [(''username'', VStr ''admin'')] = None"
    by (simp add: db0_admins find_one_def)
  have few: "length (admins_named_admin (Some db0)) \<le> 1"
    by (simp add: admins_named_admin_def db0_admins find_many_def)
  note t = admin_seeding_idempotent [of "Some db0" 1 db0]
  from t [THEN conjunct2, THEN conjunct2, THEN conjunct2, THEN conjunct1, THEN mp, OF absent]
  obtain d' where d': "ensure_default_admin (Some db0) = (Inr (), Some d')"
    "coll d' ''admin'' = coll db0 ''admin'' @
        [\<lparr>doc_id = next_oid db0, doc_fields =
            [(''username'', VStr ''admin''), (''password_hash'', VStr ''admin''),
             (''role'', VStr ''admin''), (''is_active'', VBool True)]\<rparr>]"
    "\<forall>c. c \<noteq> ''admin'' \<longrightarrow> coll d' c = coll db0 c"
    by blast
  from d'(2) have present: "find_one (coll d' ''admin'') [(''username'', VStr ''admin'')] \<noteq> None"
    by (simp add: db0_admins find_one_def matches_def doc_lookup_def)
  note u = admin_seeding_idempotent [of "Some db0" 2 d']
  from u [THEN conjunct2, THEN conjunct2, THEN conjunct2, THEN conjunct2, THEN conjunct1,
      THEN mp, OF present]
  have again: "ensure_default_admin (Some d') = (Inr (), Some d')" .
  from u [THEN conjunct2, THEN conjunct2, THEN conjunct1, THEN mp, OF few]
  have 1: "length (admins_named_admin (run_startup 2 (Some db0))) \<le> 1" .
  from t [THEN conjunct2, THEN conjunct1]
  have 2: "run_startup (Suc 1) (Some db0) = run_startup 1 (Some db0)" .
  from d'(2) have 3: "coll d' ''admin'' =
        [\<lparr>doc_id = 4, doc_fields =
            [(''username'', VStr ''admin''), (''password_hash'', VStr ''admin''),
             (''role'', VStr ''admin''), (''is_active'', VBool True)]\<rparr>]"
    by (simp add: db0_admins db0_next)
  from d'(3) have 4: "coll d' ''customer'' = [alice, bob]"
    by (simp add: db0_customers)
  from d'(1) again 1 2 3 4 show ?thesis by blast
qed

section \<open>Leads\<close>

text \<open>
  The email check either accepts the request, leaving the address \<open>v\<close> to store (none
  when the request has none), or raises.
\<close>

lemma create_lead_accepted:
  assumes "(case lc_email payload of
              None \<Rightarrow> v = None
            | Some e \<Rightarrow> \<exists>e'. EmailStr_call e = Inr e' \<and> v = Some e')"
  shows "create_lead EmailStr_call (Some d) payload a =
     (Inr [(''id'', VStr (str_of_oid (next_oid d)))],
      Some (fst (insert_one d ''lead''
        [(''customer_id'', VStr (str_of_oid (doc_id a))), (''name'', VStr (lc_name payload)),
         (''email'', opt_str v), (''phone'', opt_str (lc_phone payload)),
         (''source'', opt_str (lc_source payload)), (''status'', VStr ''new''),
         (''notes'', VNone)])))"
proof (cases "lc_email payload")
  case None
  with assms show ?thesis
    by (simp add: create_lead_def mk_Lead_def create_document_Some Lead_dump_def opt_str_def)
next
  case (Some e)
  with assms obtain e' where "EmailStr_call e = Inr e'" and "v = Some e'" by auto
  with Some show ?thesis
    by (simp add: create_lead_def mk_Lead_def create_document_Some Lead_dump_def opt_str_def)
qed

lemma create_lead_rejected:
  "lc_email payload = Some e \<Longrightarrow> EmailStr_call e = Inl err \<Longrightarrow>
   create_lead EmailStr_call db payload a = (Inl err, db)"
  by (simp add: create_lead_def mk_Lead_def)

lemma create_lead_cases:
  "(\<exists>e err. lc_email payload = Some e \<and> EmailStr_call e = Inl err) \<or>
   (\<exists>v. case lc_email payload of
            None \<Rightarrow> v = None
          | Some e \<Rightarrow> \<exists>e'. EmailStr_call e = Inr e' \<and> v = Some e')"
proof (cases "lc_email payload")
  case None
  then show ?thesis by simp
next
  case (Some e)
  then show ?thesis by (cases "EmailStr_call e") simp_all
qed

lemma list_leads_Some:
  "list_leads (Some d) b =
     Inr (map render_id (take 100 (find_many (coll d ''lead'')
            [(''customer_id'', VStr (str_of_oid (doc_id b)))])))"
  by (simp add: list_leads_def get_documents_def)

lemma find_many_owner:
  "l \<in> set (take n (find_many ds [(''customer_id'', v)])) \<Longrightarrow>
   l \<in> set ds \<and> doc_lookup l ''customer_id'' = Some v"
  by (auto simp: find_many_def matches_def dest!: in_set_takeD)

lemma render_id_owner: "map_of (render_id l) ''customer_id'' = doc_lookup l ''customer_id''"
  by (simp add: render_id_def doc_lookup_def)

lemma render_id_id: "map_of (render_id l) ''_id'' = Some (VStr (str_of_oid (doc_id l)))"
  by (simp add: render_id_def)

lemma listed_lead:
  assumes "list_leads (Some d) b = Inr rs" and "r \<in> set rs"
  shows "\<exists>l\<in>set (coll d ''lead''). r = render_id l \<and>
           doc_lookup l ''customer_id'' = Some (VStr (str_of_oid (doc_id b)))"
proof -
  from assms obtain l where l: "r = render_id l"
    "l \<in> set (take 100 (find_many (coll d ''lead'')
            [(''customer_id'', VStr (str_of_oid (doc_id b)))]))"
    by (auto simp: list_leads_Some)
  from find_many_owner [OF l(2)] l(1) show ?thesis by blast
qed

lemma not_listed_for_other:
  assumes own: "doc_lookup new ''customer_id'' = Some (VStr (str_of_oid (doc_id a)))"
    and diff: "doc_id a \<noteq> doc_id b"
    and lst: "list_leads (Some d) b = Inr rs"
  shows "render_id new \<notin> set rs"
proof
  assume "render_id new \<in> set rs"
  from listed_lead [OF lst this] obtain l where
    l: "render_id new = render_id l"
       "doc_lookup l ''customer_id'' = Some (VStr (str_of_oid (doc_id b)))"
    by blast
  from l(1) have "map_of (render_id new) ''customer_id'' = map_of (render_id l) ''customer_id''"
    by simp
  then have "doc_lookup new ''customer_id'' = doc_lookup l ''customer_id''"
    by (simp only: render_id_owner)
  with own l(2) have "str_of_oid (doc_id a) = str_of_oid (doc_id b)" by simp
  then have "doc_id a = doc_id b" by (rule str_of_oid_inj)
  with diff show False by simp
qed

lemma created_lead:
  assumes "create_lead EmailStr_call (Some d) payload a = (Inr r, Some d')"
  shows "\<exists>new. coll d' ''lead'' = coll d ''lead'' @ [new] \<and> doc_id new = next_oid d \<and>
           doc_lookup new ''customer_id'' = Some (VStr (str_of_oid (doc_id a))) \<and>
           doc_lookup new ''status'' = Some (VStr ''new'') \<and>
           doc_lookup new ''name'' = Some (VStr (lc_name payload)) \<and>
           r = [(''id'', VStr (str_of_oid (doc_id new)))] \<and>
           (\<forall>c. c \<noteq> ''lead'' \<longrightarrow> coll d' c = coll d c)"
proof -
  from create_lead_cases [of payload EmailStr_call] show ?thesis
  proof (elim disjE exE conjE)
    fix e err assume "lc_email payload = Some e" and "EmailStr_call e = Inl err"
    then have "create_lead EmailStr_call (Some d) payload a = (Inl err, Some d)"
      by (rule create_lead_rejected)
    with assms show ?thesis by simp
  next
    fix v
    assume ok: "(case lc_email payload of
              None \<Rightarrow> v = None
            | Some e \<Rightarrow> \<exists>e'. EmailStr_call e = Inr e' \<and> v = Some e')"
    let ?data = "[(''customer_id'', VStr (str_of_oid (doc_id a))),
                 (''name'', VStr (lc_name payload)),
                 (''email'', opt_str v), (''phone'', opt_str (lc_phone payload)),
                 (''source'', opt_str (lc_source payload)), (''status'', VStr ''new''),
                 (''notes'', VNone)]"
    let ?new = "\<lparr>doc_id = next_oid d, doc_fields = ?data\<rparr>"
    from ok have "create_lead EmailStr_call (Some d) payload a
        = (Inr [(''id'', VStr (str_of_oid (next_oid d)))], Some (fst (insert_one d ''lead'' ?data)))"
      by (rule create_lead_accepted)
    with assms have d': "d' = fst (insert_one d ''lead'' ?data)"
      and r: "r = [(''id'', VStr (str_of_oid (next_oid d)))]"
      by simp_all
    have 1: "coll d' ''lead'' = coll d ''lead'' @ [?new]"
      by (simp add: d' coll_insert_one)
    have 2: "\<forall>c. c \<noteq> ''lead'' \<longrightarrow> coll d' c = coll d c"
      by (simp add: d' coll_insert_one)
    have 3: "doc_lookup ?new ''customer_id'' = Some (VStr (str_of_oid (doc_id a))) \<and>
        doc_lookup ?new ''status'' = Some (VStr ''new'') \<and>
        doc_lookup ?new ''name'' = Some (VStr (lc_name payload)) \<and> doc_id ?new = next_oid d"
      by (simp add: doc_lookup_def)
    from r have 4: "r = [(''id'', VStr (str_of_oid (doc_id ?new)))]" by simp
    from 1 2 3 4 show ?thesis by blast
  qed
qed

text \<open>
  Claim C1. Listing the leads of a customer always returns, and returns at most 100
  records, each a lead of the store whose customer_id is the text of that customer's
  identifier, with its own identifier rendered as text; the endpoint lists for the
  customer the token resolves to. So a lead that customer A creates, which carries A's
  identifier as customer_id, is in no list returned to a customer B with another
  identifier, whatever the store holds then.
\<close>

theorem lead_listing_isolated:
  "(\<exists>rs. list_leads (Some d) b = Inr rs \<and> length rs \<le> 100 \<and>
      (\<forall>r\<in>set rs. \<exists>l\<in>set (coll d ''lead''). r = render_id l \<and>
          map_of r ''customer_id'' = Some (VStr (str_of_oid (doc_id b))) \<and>
          map_of r ''_id'' = Some (VStr (str_of_oid (doc_id l))))) \<and>
   (get_current_customer db authorization = Inr b \<longrightarrow>
      get_leads db authorization = list_leads db b) \<and>
   (doc_id a \<noteq> doc_id b \<and>
    create_lead EmailStr_call (Some d0) payload a = (Inr res, Some d1) \<longrightarrow>
      (\<exists>new. coll d1 ''lead'' = coll d0 ''lead'' @ [new] \<and>
         doc_lookup new ''customer_id'' = Some (VStr (str_of_oid (doc_id a))) \<and>
         (\<forall>rs. list_leads (Some d) b = Inr rs \<longrightarrow> render_id new \<notin> set rs)))"
proof (intro conjI impI)
  let ?rs = "map render_id (take 100 (find_many (coll d ''lead'')
            [(''customer_id'', VStr (str_of_oid (doc_id b)))]))"
  have ret: "list_leads (Some d) b = Inr ?rs" by (rule list_leads_Some)
  have len: "length ?rs \<le> 100" by simp
  have each: "\<forall>r\<in>set ?rs. \<exists>l\<in>set (coll d ''lead''). r = render_id l \<and>
          map_of r ''customer_id'' = Some (VStr (str_of_oid (doc_id b))) \<and>
          map_of r ''_id'' = Some (VStr (str_of_oid (doc_id l)))"
  proof
    fix r assume "r \<in> set ?rs"
    from listed_lead [OF ret this] obtain l where
      "l \<in> set (coll d ''lead'')" "r = render_id l"
      "doc_lookup l ''customer_id'' = Some (VStr (str_of_oid (doc_id b)))"
      by blast
    then show "\<exists>l\<in>set (coll d ''lead''). r = render_id l \<and>
          map_of r ''customer_id'' = Some (VStr (str_of_oid (doc_id b))) \<and>
          map_of r ''_id'' = Some (VStr (str_of_oid (doc_id l)))"
      by (auto simp: render_id_owner render_id_id)
  qed
  from ret len each
  show "\<exists>rs. list_leads (Some d) b = Inr rs \<and> length rs \<le> 100 \<and>
      (\<forall>r\<in>set rs. \<exists>l\<in>set (coll d ''lead''). r = render_id l \<and>
          map_of r ''customer_id'' = Some (VStr (str_of_oid (doc_id b))) \<and>
          map_of r ''_id'' = Some (VStr (str_of_oid (doc_id l))))"
    by blast
next
  assume "get_current_customer db authorization = Inr b"
  then show "get_leads db authorization = list_leads db b"
    by (simp add: get_leads_def)
next
  assume h: "doc_id a \<noteq> doc_id b \<and>
    create_lead EmailStr_call (Some d0) payload a = (Inr res, Some d1)"
  then have diff: "doc_id a \<noteq> doc_id b"
    and cr: "create_lead EmailStr_call (Some d0) payload a = (Inr res, Some d1)"
    by simp_all
  from created_lead [OF cr] obtain new where
    new: "coll d1 ''lead'' = coll d0 ''lead'' @ [new]"
      "doc_lookup new ''customer_id'' = Some (VStr (str_of_oid (doc_id a)))"
    by blast
  have "\<forall>rs. list_leads (Some d) b = Inr rs \<longrightarrow> render_id new \<notin> set rs"
    using not_listed_for_other [OF new(2) diff] by blast
  with new
  show "\<exists>new. coll d1 ''lead'' = coll d0 ''lead'' @ [new] \<and>
         doc_lookup new ''customer_id'' = Some (VStr (str_of_oid (doc_id a))) \<and>
         (\<forall>rs. list_leads (Some d) b = Inr rs \<longrightarrow> render_id new \<notin> set rs)"
    by blast
qed

theorem lead_listing_isolated_witness:
  "\<exists>d1 res new rs. create_lead sample_EmailStr (Some db0) kim alice = (Inr res, Some d1) \<and>
     coll d1 ''lead'' = [jane, new] \<and> doc_id alice \<noteq> doc_id bob \<and>
     list_leads (Some d1) bob = Inr rs \<and> length rs \<le> 100 \<and> render_id new \<notin> set rs"
proof -
  have "(case lc_email kim of
           None \<Rightarrow> (None :: string option) = None
         | Some e \<Rightarrow> \<exists>e'. sample_EmailStr e = Inr e' \<and> None = Some e')"
    by (simp add: kim_def)
  then have "create_lead sample_EmailStr (Some db0) kim alice
      = (Inr [(''id'', VStr (str_of_oid (next_oid db0)))],
         Some (fst (insert_one db0 ''lead''
           [(''customer_id'', VStr (str_of_oid (doc_id alice))), (''name'', VStr (lc_name kim)),
            (''email'', opt_str None), (''phone'', opt_str (lc_phone kim)),
            (''source'', opt_str (lc_source kim)), (''status'', VStr ''new''),
            (''notes'', VNone)])))"
    by (rule create_lead_accepted)
  then obtain res d1 where
    cr: "create_lead sample_EmailStr (Some db0) kim alice = (Inr res, Some d1)"
    by blast
  have diff: "doc_id alice \<noteq> doc_id bob"
    by (simp add: alice_def bob_def)
  note t = lead_listing_isolated [of d1 bob None None alice sample_EmailStr db0 kim res d1]
  from t [THEN conjunct1] obtain rs where
    rs: "list_leads (Some d1) bob = Inr rs" "length rs \<le> 100"
    by blast
  from t [THEN conjunct2, THEN conjunct2, THEN mp, OF conjI, OF diff cr] obtain new where
    new: "coll d1 ''lead'' = coll db0 ''lead'' @ [new]"
      "\<forall>rs. list_leads (Some d1) bob = Inr rs \<longrightarrow> render_id new \<notin> set rs"
    by blast
  from new(1) have l: "coll d1 ''lead'' = [jane, new]"
    by (simp add: db0_leads)
  from new(2) rs(1) have "render_id new \<notin> set rs" by blast
  with cr l diff rs show ?thesis by blast
qed

section \<open>Creating a lead\<close>

lemma get_current_Inr_Some: "get_current cname db a = Inr c \<Longrightarrow> \<exists>d. db = Some d"
  by (cases db) (simp_all add: get_current_def)

lemma alice_token:
  "get_current_customer (Some db0) (Some (''Bearer '' @ str_of_oid 1)) = Inr alice"
proof -
  have "find_one (coll db0 ''customer'') [(''_id'', VOid 1)] = Some alice"
    by (simp add: db0_customers find_one_def matches_id alice_def)
  with get_current_parsed [OF parse_Bearer, of "''customer''" db0 1]
  show ?thesis by (simp add: get_current_customer_def)
qed

lemma bob_token:
  "get_current_customer (Some db0) (Some (''Bearer '' @ str_of_oid 2)) = Inr bob"
proof -
  have "find_one (coll db0 ''customer'') [(''_id'', VOid 2)] = Some bob"
    by (simp add: db0_customers find_one_def matches_id alice_def bob_def)
  with get_current_parsed [OF parse_Bearer, of "''customer''" db0 2]
  show ?thesis by (simp add: get_current_customer_def)
qed

text \<open>
  Claim C6, as stated, fails: the handler builds a \<^verbatim>\<open>Lead\<close>, whose email is an
  \<^verbatim>\<open>EmailStr\<close>, from a request whose email is any string. For the authenticated customer
  of identifier 1 and a lead with the email \<^verbatim>\<open>"not-an-email"\<close>, which the email check
  rejects, the request ends in a validation error, no lead is persisted and no identifier
  is returned.
\<close>

theorem lead_creation_counterexample:
  "get_current_customer (Some db0) (Some (''Bearer '' @ str_of_oid 1)) = Inr alice \<and>
   sample_EmailStr ''not-an-email'' = Inl ValidationError \<and>
   post_leads sample_EmailStr (Some db0) (Some (''Bearer '' @ str_of_oid 1))
     \<lparr>lc_name = ''Max'', lc_email = Some ''not-an-email'', lc_phone = None, lc_source = None\<rparr>
     = (Inl ValidationError, Some db0)"
proof -
  have r: "sample_EmailStr ''not-an-email'' = Inl ValidationError"
    by (simp add: sample_EmailStr_def)
  have e: "lc_email \<lparr>lc_name = ''Max'', lc_email = Some ''not-an-email'', lc_phone = None,
      lc_source = None\<rparr> = Some ''not-an-email''"
    by simp
  from e r have "create_lead sample_EmailStr (Some db0)
      \<lparr>lc_name = ''Max'', lc_email = Some ''not-an-email'', lc_phone = None, lc_source = None\<rparr>
      alice = (Inl ValidationError, Some db0)"
    by (rule create_lead_rejected)
  with r show ?thesis
    by (simp add: post_leads_def alice_token del: append.simps)
qed

text \<open>
  Claim C6, amended. For an authenticated customer and a request whose email is absent or
  passes the schema's email check, whatever that check is, creating a lead persists
  exactly one lead, in the lead collection only, whose customer_id is the text of the
  caller's identifier, whose status is \<^verbatim>\<open>"new"\<close> and whose name is the request's, and
  returns the text of the identifier the store generated for it. With an email on which
  the check raises, the request ends in that error and nothing is persisted.
\<close>

theorem lead_creation_postcondition:
  "(get_current_customer db authorization = Inr customer \<and>
    (case lc_email payload of None \<Rightarrow> True | Some e \<Rightarrow> \<exists>e'. EmailStr_call e = Inr e') \<longrightarrow>
      (\<exists>d d' new. db = Some d \<and>
         post_leads EmailStr_call db authorization payload
           = (Inr [(''id'', VStr (str_of_oid (doc_id new)))], Some d') \<and>
         coll d' ''lead'' = coll d ''lead'' @ [new] \<and>
         (\<forall>c. c \<noteq> ''lead'' \<longrightarrow> coll d' c = coll d c) \<and>
         doc_id new = next_oid d \<and>
         doc_lookup new ''customer_id'' = Some (VStr (str_of_oid (doc_id customer))) \<and>
         doc_lookup new ''status'' = Some (VStr ''new'') \<and>
         doc_lookup new ''name'' = Some (VStr (lc_name payload)))) \<and>
   (get_current_customer db authorization = Inr customer \<and>
    lc_email payload = Some e \<and> EmailStr_call e = Inl err \<longrightarrow>
      post_leads EmailStr_call db authorization payload = (Inl err, db))"
proof (intro conjI impI)
  assume h: "get_current_customer db authorization = Inr customer \<and>
    (case lc_email payload of None \<Rightarrow> True | Some e \<Rightarrow> \<exists>e'. EmailStr_call e = Inr e')"
  then obtain d where d: "db = Some d"
    unfolding get_current_customer_def using get_current_Inr_Some by blast
  from h have "\<exists>v. (case lc_email payload of
              None \<Rightarrow> v = None
            | Some e \<Rightarrow> \<exists>e'. EmailStr_call e = Inr e' \<and> v = Some e')"
    by (cases "lc_email payload") auto
  then obtain v where ok: "(case lc_email payload of
              None \<Rightarrow> v = None
            | Some e \<Rightarrow> \<exists>e'. EmailStr_call e = Inr e' \<and> v = Some e')"
    by blast
  let ?d' = "fst (insert_one d ''lead''
              [(''customer_id'', VStr (str_of_oid (doc_id customer))),
               (''name'', VStr (lc_name payload)),
               (''email'', opt_str v), (''phone'', opt_str (lc_phone payload)),
               (''source'', opt_str (lc_source payload)), (''status'', VStr ''new''),
               (''notes'', VNone)])"
  from ok have cr: "create_lead EmailStr_call (Some d) payload customer
      = (Inr [(''id'', VStr (str_of_oid (next_oid d)))], Some ?d')"
    by (rule create_lead_accepted)
  from created_lead [OF cr] obtain new where
    new: "coll ?d' ''lead'' = coll d ''lead'' @ [new]" "doc_id new = next_oid d"
      "doc_lookup new ''customer_id'' = Some (VStr (str_of_oid (doc_id customer)))"
      "doc_lookup new ''status'' = Some (VStr ''new'')"
      "doc_lookup new ''name'' = Some (VStr (lc_name payload))"
      "\<forall>c. c \<noteq> ''lead'' \<longrightarrow> coll ?d' c = coll d c"
    by blast
  from h d cr new(2) have "post_leads EmailStr_call db authorization payload
      = (Inr [(''id'', VStr (str_of_oid (doc_id new)))], Some ?d')"
    by (simp add: post_leads_def)
  with d new
  show "\<exists>d d' new. db = Some d \<and>
         post_leads EmailStr_call db authorization payload
           = (Inr [(''id'', VStr (str_of_oid (doc_id new)))], Some d') \<and>
         coll d' ''lead'' = coll d ''lead'' @ [new] \<and>
         (\<forall>c. c \<noteq> ''lead'' \<longrightarrow> coll d' c = coll d c) \<and>
         doc_id new = next_oid d \<and>
         doc_lookup new ''customer_id'' = Some (VStr (str_of_oid (doc_id customer))) \<and>
         doc_lookup new ''status'' = Some (VStr ''new'') \<and>
         doc_lookup new ''name'' = Some (VStr (lc_name payload))"
    by blast
next
  assume h: "get_current_customer db authorization = Inr customer \<and>
    lc_email payload = Some e \<and> EmailStr_call e = Inl err"
  then have "lc_email payload = Some e" and "EmailStr_call e = Inl err" by simp_all
  then have "create_lead EmailStr_call db payload customer = (Inl err, db)"
    by (rule create_lead_rejected)
  with h show "post_leads EmailStr_call db authorization payload = (Inl err, db)"
    by (simp add: post_leads_def)
qed

theorem lead_creation_postcondition_witness:
  "(\<exists>d' new. post_leads sample_EmailStr (Some db0) (Some (''Bearer '' @ str_of_oid 2)) lee
       = (Inr [(''id'', VStr (str_of_oid 4))], Some d') \<and>
     coll d' ''lead'' = [jane, new] \<and> doc_id new = 4 \<and>
     doc_lookup new ''customer_id'' = Some (VStr (str_of_oid 2)) \<and>
     doc_lookup new ''status'' = Some (VStr ''new'') \<and>
     doc_lookup new ''name'' = Some (VStr ''Lee'')) \<and>
   post_leads sample_EmailStr (Some db0) (Some (''Bearer '' @ str_of_oid 2)) bad_lead
     = (Inl ValidationError, Some db0)"
proof -
  have ok: "(case lc_email lee of None \<Rightarrow> True | Some e \<Rightarrow> \<exists>e'. sample_EmailStr e = Inr e')"
    by (simp add: lee_def sample_EmailStr_def)
  have bad: "lc_email bad_lead = Some ''not-an-email'' \<and>
      sample_EmailStr ''not-an-email'' = Inl ValidationError"
    by (simp add: bad_lead_def sample_EmailStr_def)
  note t = lead_creation_postcondition
    [where db = "Some db0" and authorization = "Some (''Bearer '' @ str_of_oid 2)"
      and customer = bob and payload = lee and EmailStr_call = sample_EmailStr]
  note u = lead_creation_postcondition
    [where db = "Some db0" and authorization = "Some (''Bearer '' @ str_of_oid 2)"
      and customer = bob and payload = bad_lead and EmailStr_call = sample_EmailStr
      and e = "''not-an-email''" and err = ValidationError]
  from t [THEN conjunct1, THEN mp, OF conjI, OF bob_token ok] obtain d d' new where
    r: "Some db0 = Some d"
      "post_leads sample_EmailStr (Some db0) (Some (''Bearer '' @ str_of_oid 2)) lee
         = (Inr [(''id'', VStr (str_of_oid (doc_id new)))], Some d')"
      "coll d' ''lead'' = coll d ''lead'' @ [new]" "doc_id new = next_oid d"
      "doc_lookup new ''customer_id'' = Some (VStr (str_of_oid (doc_id bob)))"
      "doc_lookup new ''status'' = Some (VStr ''new'')"
      "doc_lookup new ''name'' = Some (VStr (lc_name lee))"
    by blast
  from r(1) have d: "d = db0" by simp
  from r(4) d have i: "doc_id new = 4" by (simp add: db0_next)
  from r(3) d have l: "coll d' ''lead'' = [jane, new]" by (simp add: db0_leads)
  from r(5) have c: "doc_lookup new ''customer_id'' = Some (VStr (str_of_oid 2))"
    by (simp add: bob_def)
  from r(7) have n: "doc_lookup new ''name'' = Some (VStr ''Lee'')"
    by (simp add: lee_def)
  from r(2) i have p: "post_leads sample_EmailStr (Some db0) (Some (''Bearer '' @ str_of_oid 2))
       lee = (Inr [(''id'', VStr (str_of_oid 4))], Some d')"
    by simp
  from bob_token bad u [THEN conjunct2]
  have "post_leads sample_EmailStr (Some db0) (Some (''Bearer '' @ str_of_oid 2)) bad_lead
     = (Inl ValidationError, Some db0)"
    by blast
  with p l i c r(6) n show ?thesis by blast
qed

section \<open>Feedback\<close>

lemma find_owned_lead_Some:
  "find_owned_lead (Some d) lid c =
     (case ObjectId_of_str lid of
        None \<Rightarrow> Inl InvalidId
      | Some oid \<Rightarrow> Inr (find_one (coll d ''lead'')
          [(''_id'', VOid oid), (''customer_id'', VStr (str_of_oid (doc_id c)))]))"
  by (simp add: find_owned_lead_def)

lemma matches_owned:
  "matches [(''_id'', VOid oid), (''customer_id'', v)] l \<longleftrightarrow>
     doc_id l = oid \<and> doc_lookup l ''customer_id'' = Some v"
  by (auto simp: matches_def doc_lookup_def)

lemma disposition_or_default_valid:
  "disposition_or_default d \<in> set dispositions \<longleftrightarrow>
     (case d of None \<Rightarrow> True | Some s \<Rightarrow> s = [] \<or> s \<in> set dispositions)"
  by (cases d) (auto simp: disposition_or_default_def dispositions_def)

lemma rating_invalid:
  "\<not> (case r of None \<Rightarrow> True | Some n \<Rightarrow> 1 \<le> n \<and> n \<le> (5::int)) \<longleftrightarrow>
     (case r of None \<Rightarrow> False | Some n \<Rightarrow> n < 1 \<or> 5 < n)"
  by (cases r) auto

lemma disposition_invalid:
  "disposition_or_default d \<notin> set dispositions \<longleftrightarrow>
     (case d of None \<Rightarrow> False | Some s \<Rightarrow> s \<noteq> [] \<and> s \<notin> set dispositions)"
  by (cases d) (auto simp: disposition_or_default_def dispositions_def)

lemma submit_feedback_owned:
  assumes "find_owned_lead (Some d) (fc_lead_id payload) c = Inr (Some lead)"
  shows "submit_feedback (Some d) now payload c =
     (if (case fc_rating payload of None \<Rightarrow> True | Some n \<Rightarrow> 1 \<le> n \<and> n \<le> 5) \<and>
         disposition_or_default (fc_disposition payload) \<in> set dispositions
      then (Inr [(''id'', VStr (str_of_oid (next_oid d)))],
            Some (fst (insert_one d ''feedback''
              [(''lead_id'', VStr (fc_lead_id payload)),
               (''customer_id'', VStr (str_of_oid (doc_id c))),
               (''rating'', (case fc_rating payload of None \<Rightarrow> VNone | Some n \<Rightarrow> VInt n)),
               (''disposition'', VStr (disposition_or_default (fc_disposition payload))),
               (''comment'', opt_str (fc_comment payload)),
               (''submitted_at'', VDatetime now)])))
      else (Inl ValidationError, Some d))"
  using assms
  by (simp add: submit_feedback_def mk_Feedback_def create_document_Some Feedback_dump_def)

lemma submit_feedback_not_owned:
  "find_owned_lead db (fc_lead_id payload) c = Inr None \<Longrightarrow>
   submit_feedback db now payload c = (Inl (HTTPException 404 ''Lead not found''), db)"
  by (simp add: submit_feedback_def)

lemma submit_feedback_error:
  "find_owned_lead db (fc_lead_id payload) c = Inl e \<Longrightarrow>
   submit_feedback db now payload c = (Inl e, db)"
  by (simp add: submit_feedback_def)

lemma get_feedback_for_lead_not_owned:
  "find_owned_lead db lid c = Inr None \<Longrightarrow>
   get_feedback_for_lead db lid c = Inl (HTTPException 404 ''Lead not found'')"
  by (simp add: get_feedback_for_lead_def)

lemma get_feedback_for_lead_error:
  "find_owned_lead db lid c = Inl e \<Longrightarrow> get_feedback_for_lead db lid c = Inl e"
  by (simp add: get_feedback_for_lead_def)

lemma jane_owned: "find_owned_lead (Some db0) (str_of_oid 3) alice = Inr (Some jane)"
  by (simp add: find_owned_lead_Some ObjectId_roundtrip db0_leads find_one_def matches_owned
      jane_def alice_def doc_lookup_def)

lemma jane_not_bobs: "find_owned_lead (Some db0) (str_of_oid 3) bob = Inr None"
  by (simp add: find_owned_lead_Some ObjectId_roundtrip db0_leads find_one_def matches_owned
      jane_def bob_def doc_lookup_def str_of_oid_eq_iff)

lemma nobody_owns_9: "find_owned_lead (Some db0) (str_of_oid 9) bob = Inr None"
  by (simp add: find_owned_lead_Some ObjectId_roundtrip db0_leads find_one_def matches_owned
      jane_def)

text \<open>
  Claim C7, as stated, fails: the request takes any integer as rating and any string as
  disposition, and the handler builds a \<^verbatim>\<open>Feedback\<close>, whose rating is between 1 and 5 and
  whose disposition is one of five values. For the customer of identifier 1 and its own
  lead of identifier 3, a rating of 7, and likewise the disposition \<^verbatim>\<open>"maybe"\<close>, ends in
  a validation error and no feedback is persisted.
\<close>

theorem feedback_creation_counterexample:
  "get_current_customer (Some db0) (Some (''Bearer '' @ str_of_oid 1)) = Inr alice \<and>
   find_owned_lead (Some db0) (str_of_oid 3) alice = Inr (Some jane) \<and>
   post_feedback (Some db0) 0 (Some (''Bearer '' @ str_of_oid 1))
     \<lparr>fc_lead_id = str_of_oid 3, fc_rating = Some 7, fc_disposition = None, fc_comment = None\<rparr>
     = (Inl ValidationError, Some db0) \<and>
   post_feedback (Some db0) 0 (Some (''Bearer '' @ str_of_oid 1))
     \<lparr>fc_lead_id = str_of_oid 3, fc_rating = None, fc_disposition = Some ''maybe'',
      fc_comment = None\<rparr>
     = (Inl ValidationError, Some db0)"
proof -
  have 1: "submit_feedback (Some db0) 0
     \<lparr>fc_lead_id = str_of_oid 3, fc_rating = Some 7, fc_disposition = None, fc_comment = None\<rparr>
     alice = (Inl ValidationError, Some db0)"
    using submit_feedback_owned [of db0 _ alice jane 0] jane_owned by simp
  have "disposition_or_default (Some ''maybe'') \<notin> set dispositions"
    by (simp add: disposition_or_default_def dispositions_def)
  then have 2: "submit_feedback (Some db0) 0
     \<lparr>fc_lead_id = str_of_oid 3, fc_rating = None, fc_disposition = Some ''maybe'',
      fc_comment = None\<rparr> alice = (Inl ValidationError, Some db0)"
    using submit_feedback_owned [of db0 _ alice jane 0] jane_owned by simp
  from 1 2 show ?thesis
    by (simp add: post_feedback_def alice_token jane_owned del: append.simps)
qed

text \<open>
  Claim C7, amended. For an authenticated customer, a lead_id that passes the ownership
  check, a rating that is absent or between 1 and 5 and a disposition that is omitted,
  empty or one of the five values of the schema, submitting feedback persists exactly one
  feedback record, in the feedback collection only, with the caller's identifier as
  customer_id, the request's lead_id and rating, the supplied disposition, or
  \<^verbatim>\<open>"follow_up"\<close> when it is omitted or empty, and the current time, and returns the text
  of the identifier the store generated for it. With a rating outside 1 to 5, or a
  disposition that is not empty and not one of the five values, the request ends in a
  validation error and nothing is persisted.
\<close>

theorem feedback_creation_postcondition:
  "(get_current_customer db authorization = Inr customer \<and>
    find_owned_lead db (fc_lead_id payload) customer = Inr (Some lead) \<and>
    (case fc_rating payload of None \<Rightarrow> True | Some n \<Rightarrow> 1 \<le> n \<and> n \<le> 5) \<and>
    (case fc_disposition payload of
       None \<Rightarrow> True
     | Some s \<Rightarrow> s = [] \<or> s \<in> set dispositions) \<longrightarrow>
      (\<exists>d d' new. db = Some d \<and>
         post_feedback db now authorization payload
           = (Inr [(''id'', VStr (str_of_oid (doc_id new)))], Some d') \<and>
         coll d' ''feedback'' = coll d ''feedback'' @ [new] \<and>
         (\<forall>c. c \<noteq> ''feedback'' \<longrightarrow> coll d' c = coll d c) \<and>
         doc_id new = next_oid d \<and>
         doc_lookup new ''customer_id'' = Some (VStr (str_of_oid (doc_id customer))) \<and>
         doc_lookup new ''lead_id'' = Some (VStr (fc_lead_id payload)) \<and>
         doc_lookup new ''rating''
           = Some (case fc_rating payload of None \<Rightarrow> VNone | Some n \<Rightarrow> VInt n) \<and>
         doc_lookup new ''disposition''
           = Some (VStr (case fc_disposition payload of
                           None \<Rightarrow> ''follow_up''
                         | Some s \<Rightarrow> if s = [] then ''follow_up'' else s)) \<and>
         doc_lookup new ''submitted_at'' = Some (VDatetime now))) \<and>
   (get_current_customer db authorization = Inr customer \<and>
    find_owned_lead db (fc_lead_id payload) customer = Inr (Some lead) \<and>
    ((case fc_rating payload of None \<Rightarrow> False | Some n \<Rightarrow> n < 1 \<or> 5 < n) \<or>
     (case fc_disposition payload of
        None \<Rightarrow> False
      | Some s \<Rightarrow> s \<noteq> [] \<and> s \<notin> set dispositions)) \<longrightarrow>
      post_feedback db now authorization payload = (Inl ValidationError, db))"
proof (intro conjI impI)
  assume h: "get_current_customer db authorization = Inr customer \<and>
    find_owned_lead db (fc_lead_id payload) customer = Inr (Some lead) \<and>
    (case fc_rating payload of None \<Rightarrow> True | Some n \<Rightarrow> 1 \<le> n \<and> n \<le> 5) \<and>
    (case fc_disposition payload of
       None \<Rightarrow> True
     | Some s \<Rightarrow> s = [] \<or> s \<in> set dispositions)"
  then obtain d where d: "db = Some d"
    unfolding get_current_customer_def using get_current_Inr_Some by blast
  from h have disp: "disposition_or_default (fc_disposition payload) \<in> set dispositions"
    by (simp only: disposition_or_default_valid)
  have dflt: "disposition_or_default (fc_disposition payload)
      = (case fc_disposition payload of
           None \<Rightarrow> ''follow_up''
         | Some s \<Rightarrow> if s = [] then ''follow_up'' else s)"
    by (simp add: disposition_or_default_def)
  let ?data = "[(''lead_id'', VStr (fc_lead_id payload)),
               (''customer_id'', VStr (str_of_oid (doc_id customer))),
               (''rating'', (case fc_rating payload of None \<Rightarrow> VNone | Some n \<Rightarrow> VInt n)),
               (''disposition'', VStr (disposition_or_default (fc_disposition payload))),
               (''comment'', opt_str (fc_comment payload)),
               (''submitted_at'', VDatetime now)]"
  let ?new = "\<lparr>doc_id = next_oid d, doc_fields = ?data\<rparr>"
  let ?d' = "fst (insert_one d ''feedback'' ?data)"
  from h d have own: "find_owned_lead (Some d) (fc_lead_id payload) customer = Inr (Some lead)"
    by simp
  from h disp have "submit_feedback (Some d) now payload customer
      = (Inr [(''id'', VStr (str_of_oid (next_oid d)))], Some ?d')"
    by (simp add: submit_feedback_owned [OF own])
  with h d have 1: "post_feedback db now authorization payload
      = (Inr [(''id'', VStr (str_of_oid (doc_id ?new)))], Some ?d')"
    by (simp add: post_feedback_def)
  have 2: "coll ?d' ''feedback'' = coll d ''feedback'' @ [?new]"
    by (simp add: coll_insert_one)
  have 3: "\<forall>c. c \<noteq> ''feedback'' \<longrightarrow> coll ?d' c = coll d c"
    by (simp add: coll_insert_one)
  have 4: "doc_id ?new = next_oid d \<and>
      doc_lookup ?new ''customer_id'' = Some (VStr (str_of_oid (doc_id customer))) \<and>
      doc_lookup ?new ''lead_id'' = Some (VStr (fc_lead_id payload)) \<and>
      doc_lookup ?new ''rating''
           = Some (case fc_rating payload of None \<Rightarrow> VNone | Some n \<Rightarrow> VInt n) \<and>
      doc_lookup ?new ''disposition''
           = Some (VStr (case fc_disposition payload of
                           None \<Rightarrow> ''follow_up''
                         | Some s \<Rightarrow> if s = [] then ''follow_up'' else s)) \<and>
      doc_lookup ?new ''submitted_at'' = Some (VDatetime now)"
    by (simp add: doc_lookup_def dflt)
  from d 1 2 3 4
  show "\<exists>d d' new. db = Some d \<and>
         post_feedback db now authorization payload
           = (Inr [(''id'', VStr (str_of_oid (doc_id new)))], Some d') \<and>
         coll d' ''feedback'' = coll d ''feedback'' @ [new] \<and>
         (\<forall>c. c \<noteq> ''feedback'' \<longrightarrow> coll d' c = coll d c) \<and>
         doc_id new = next_oid d \<and>
         doc_lookup new ''customer_id'' = Some (VStr (str_of_oid (doc_id customer))) \<and>
         doc_lookup new ''lead_id'' = Some (VStr (fc_lead_id payload)) \<and>
         doc_lookup new ''rating''
           = Some (case fc_rating payload of None \<Rightarrow> VNone | Some n \<Rightarrow> VInt n) \<and>
         doc_lookup new ''disposition''
           = Some (VStr (case fc_disposition payload of
                           None \<Rightarrow> ''follow_up''
                         | Some s \<Rightarrow> if s = [] then ''follow_up'' else s)) \<and>
         doc_lookup new ''submitted_at'' = Some (VDatetime now)"
    by blast
next
  assume h: "get_current_customer db authorization = Inr customer \<and>
    find_owned_lead db (fc_lead_id payload) customer = Inr (Some lead) \<and>
    ((case fc_rating payload of None \<Rightarrow> False | Some n \<Rightarrow> n < 1 \<or> 5 < n) \<or>
     (case fc_disposition payload of
        None \<Rightarrow> False
      | Some s \<Rightarrow> s \<noteq> [] \<and> s \<notin> set dispositions))"
  then obtain d where d: "db = Some d"
    unfolding get_current_customer_def using get_current_Inr_Some by blast
  from h d have own: "find_owned_lead (Some d) (fc_lead_id payload) customer = Inr (Some lead)"
    by simp
  from h have "\<not> (case fc_rating payload of None \<Rightarrow> True | Some n \<Rightarrow> 1 \<le> n \<and> n \<le> 5) \<or>
      disposition_or_default (fc_disposition payload) \<notin> set dispositions"
    by (simp only: rating_invalid disposition_invalid)
  then have "submit_feedback (Some d) now payload customer = (Inl ValidationError, Some d)"
    by (auto simp: submit_feedback_owned [OF own])
  with h d show "post_feedback db now authorization payload = (Inl ValidationError, db)"
    by (simp add: post_feedback_def)
qed

lemma empty_disposition_allowed:
  "(case fc_disposition (rate5\<lparr>fc_disposition := Some []\<rparr>) of
      None \<Rightarrow> True
    | Some s \<Rightarrow> s = [] \<or> s \<in> set dispositions)"
  by simp

theorem feedback_creation_postcondition_witness:
  "(\<exists>d' new. post_feedback (Some db0) 1700000000 (Some (''Bearer '' @ str_of_oid 1)) rate5
       = (Inr [(''id'', VStr (str_of_oid 4))], Some d') \<and>
     coll d' ''feedback'' = [new] \<and>
     doc_lookup new ''customer_id'' = Some (VStr (str_of_oid 1)) \<and>
     doc_lookup new ''rating'' = Some (VInt 5) \<and>
     doc_lookup new ''disposition'' = Some (VStr ''follow_up'') \<and>
     doc_lookup new ''submitted_at'' = Some (VDatetime 1700000000)) \<and>
   (\<exists>d' new. post_feedback (Some db0) 1700000000 (Some (''Bearer '' @ str_of_oid 1))
         (rate5\<lparr>fc_disposition := Some []\<rparr>)
       = (Inr [(''id'', VStr (str_of_oid (doc_id new)))], Some d') \<and>
     coll d' ''feedback'' = [new] \<and>
     doc_lookup new ''disposition'' = Some (VStr ''follow_up'')) \<and>
   post_feedback (Some db0) 1700000000 (Some (''Bearer '' @ str_of_oid 1))
     (rate5\<lparr>fc_rating := Some 7\<rparr>) = (Inl ValidationError, Some db0)"
proof -
  have own: "find_owned_lead (Some db0) (fc_lead_id rate5) alice = Inr (Some jane)"
    by (simp add: rate5_def jane_owned)
  have own': "find_owned_lead (Some db0) (fc_lead_id (rate5\<lparr>fc_rating := Some 7\<rparr>)) alice
      = Inr (Some jane)"
    by (simp add: rate5_def jane_owned)
  have own'': "find_owned_lead (Some db0) (fc_lead_id (rate5\<lparr>fc_disposition := Some []\<rparr>)) alice
      = Inr (Some jane)"
    by (simp add: rate5_def jane_owned)
  have ok: "(case fc_rating rate5 of None \<Rightarrow> True | Some n \<Rightarrow> 1 \<le> n \<and> n \<le> 5) \<and>
      (case fc_disposition rate5 of None \<Rightarrow> True | Some s \<Rightarrow> s = [] \<or> s \<in> set dispositions)"
    by (simp add: rate5_def)
  have ok'': "(case fc_rating (rate5\<lparr>fc_disposition := Some []\<rparr>) of
        None \<Rightarrow> True | Some n \<Rightarrow> 1 \<le> n \<and> n \<le> 5)"
    by (simp add: rate5_def)
  have bad: "(case fc_rating (rate5\<lparr>fc_rating := Some 7\<rparr>) of
        None \<Rightarrow> False | Some n \<Rightarrow> n < 1 \<or> 5 < n) \<or>
      (case fc_disposition (rate5\<lparr>fc_rating := Some 7\<rparr>) of
        None \<Rightarrow> False | Some s \<Rightarrow> s \<noteq> [] \<and> s \<notin> set dispositions)"
    by simp
  note t = feedback_creation_postcondition
    [where db = "Some db0" and authorization = "Some (''Bearer '' @ str_of_oid 1)"
      and customer = alice and payload = rate5 and lead = jane and now = 1700000000]
  note u = feedback_creation_postcondition
    [where db = "Some db0" and authorization = "Some (''Bearer '' @ str_of_oid 1)"
      and customer = alice and payload = "rate5\<lparr>fc_rating := Some 7\<rparr>" and lead = jane
      and now = 1700000000]
  note w = feedback_creation_postcondition
    [where db = "Some db0" and authorization = "Some (''Bearer '' @ str_of_oid 1)"
      and customer = alice and payload = "rate5\<lparr>fc_disposition := Some []\<rparr>" and lead = jane
      and now = 1700000000]
  from alice_token own ok t [THEN conjunct1] obtain d d' new where
    r: "Some db0 = Some d"
      "post_feedback (Some db0) 1700000000 (Some (''Bearer '' @ str_of_oid 1)) rate5
         = (Inr [(''id'', VStr (str_of_oid (doc_id new)))], Some d')"
      "coll d' ''feedback'' = coll d ''feedback'' @ [new]" "doc_id new = next_oid d"
      "doc_lookup new ''customer_id'' = Some (VStr (str_of_oid (doc_id alice)))"
      "doc_lookup new ''rating''
           = Some (case fc_rating rate5 of None \<Rightarrow> VNone | Some n \<Rightarrow> VInt n)"
      "doc_lookup new ''disposition''
           = Some (VStr (case fc_disposition rate5 of
                           None \<Rightarrow> ''follow_up''
                         | Some s \<Rightarrow> if s = [] then ''follow_up'' else s))"
      "doc_lookup new ''submitted_at'' = Some (VDatetime 1700000000)"
    by blast
  from r(1) have d: "d = db0" by simp
  from r(2,4) d have 1: "post_feedback (Some db0) 1700000000 (Some (''Bearer '' @ str_of_oid 1))
      rate5 = (Inr [(''id'', VStr (str_of_oid 4))], Some d')"
    by (simp add: db0_next)
  from r(3) d have 2: "coll d' ''feedback'' = [new]"
    by (simp add: db0_def coll_def)
  from r(5) have 3: "doc_lookup new ''customer_id'' = Some (VStr (str_of_oid 1))"
    by (simp add: alice_def)
  from r(6) have 4: "doc_lookup new ''rating'' = Some (VInt 5)"
    by (simp add: rate5_def)
  from r(7) have 5: "doc_lookup new ''disposition'' = Some (VStr ''follow_up'')"
    by (simp add: rate5_def)
  from alice_token own'' ok'' empty_disposition_allowed w [THEN conjunct1]
  obtain e e' new' where
    s: "Some db0 = Some e"
      "post_feedback (Some db0) 1700000000 (Some (''Bearer '' @ str_of_oid 1))
         (rate5\<lparr>fc_disposition := Some []\<rparr>)
         = (Inr [(''id'', VStr (str_of_oid (doc_id new')))], Some e')"
      "coll e' ''feedback'' = coll e ''feedback'' @ [new']"
      "doc_lookup new' ''disposition''
           = Some (VStr (case fc_disposition (rate5\<lparr>fc_disposition := Some []\<rparr>) of
                           None \<Rightarrow> ''follow_up''
                         | Some s \<Rightarrow> if s = [] then ''follow_up'' else s))"
    by blast
  from s(1) have e: "e = db0" by simp
  from s(3) e have 7: "coll e' ''feedback'' = [new']"
    by (simp add: db0_def coll_def)
  from s(4) have 8: "doc_lookup new' ''disposition'' = Some (VStr ''follow_up'')"
    by simp
  from alice_token own' bad u [THEN conjunct2]
  have 6: "post_feedback (Some db0) 1700000000 (Some (''Bearer '' @ str_of_oid 1))
     (rate5\<lparr>fc_rating := Some 7\<rparr>) = (Inl ValidationError, Some db0)"
    by blast
  from 1 2 3 4 5 r(8) have A: "\<exists>d' new.
     post_feedback (Some db0) 1700000000 (Some (''Bearer '' @ str_of_oid 1)) rate5
       = (Inr [(''id'', VStr (str_of_oid 4))], Some d') \<and>
     coll d' ''feedback'' = [new] \<and>
     doc_lookup new ''customer_id'' = Some (VStr (str_of_oid 1)) \<and>
     doc_lookup new ''rating'' = Some (VInt 5) \<and>
     doc_lookup new ''disposition'' = Some (VStr ''follow_up'') \<and>
     doc_lookup new ''submitted_at'' = Some (VDatetime 1700000000)"
    by blast
  from s(2) 7 8 have B: "\<exists>d' new.
     post_feedback (Some db0) 1700000000 (Some (''Bearer '' @ str_of_oid 1))
         (rate5\<lparr>fc_disposition := Some []\<rparr>)
       = (Inr [(''id'', VStr (str_of_oid (doc_id new)))], Some d') \<and>
     coll d' ''feedback'' = [new] \<and>
     doc_lookup new ''disposition'' = Some (VStr ''follow_up'')"
    by blast
  from A B 6 show ?thesis by (simp only: simp_thms)
qed

section \<open>Feedback for a lead that the caller does not own\<close>

text \<open>
  For a lead_id that is the text of an identifier, both feedback handlers answer 404, with
  the same detail, whenever no lead has this identifier and the caller's identifier as
  customer_id, whether the lead does not exist or belongs to another customer; the store
  is not written and no feedback is returned.
\<close>

lemma feedback_lead_not_found:
  assumes auth: "get_current_customer (Some d) authorization = Inr customer"
    and parsed: "ObjectId_of_str lid = Some oid"
    and none: "\<forall>l\<in>set (coll d ''lead''). \<not> (doc_id l = oid \<and>
        doc_lookup l ''customer_id'' = Some (VStr (str_of_oid (doc_id customer))))"
  shows "get_feedback (Some d) authorization lid = Inl (HTTPException 404 ''Lead not found'')"
    and "fc_lead_id payload = lid \<Longrightarrow>
      post_feedback (Some d) now authorization payload
        = (Inl (HTTPException 404 ''Lead not found''), Some d)"
proof -
  from none have "find_one (coll d ''lead'')
      [(''_id'', VOid oid), (''customer_id'', VStr (str_of_oid (doc_id customer)))] = None"
    by (simp add: find_one_None matches_owned)
  with parsed have nf: "find_owned_lead (Some d) lid customer = Inr None"
    by (simp add: find_owned_lead_Some)
  from auth nf show "get_feedback (Some d) authorization lid
      = Inl (HTTPException 404 ''Lead not found'')"
    by (simp add: get_feedback_def get_feedback_for_lead_not_owned)
  assume "fc_lead_id payload = lid"
  with auth nf show "post_feedback (Some d) now authorization payload
        = (Inl (HTTPException 404 ''Lead not found''), Some d)"
    by (simp add: post_feedback_def submit_feedback_not_owned)
qed

text \<open>
  Claim C2 holds for every lead_id that is the text of an identifier, and fails for the
  others: \<^verbatim>\<open>ObjectId(lead_id)\<close> is evaluated outside any \<^verbatim>\<open>try\<close>, unlike the same call in
  token resolution. For the customer of identifier 1 and the lead_id \<^verbatim>\<open>"abc"\<close>, which no
  lead has, both handlers end in \<^verbatim>\<open>InvalidId\<close>, answered with status 500, where a lead of
  another customer gives status 404.
\<close>

theorem feedback_malformed_lead_id:
  "get_current_customer (Some db0) (Some (''Bearer '' @ str_of_oid 1)) = Inr alice \<and>
   get_feedback (Some db0) (Some (''Bearer '' @ str_of_oid 1)) ''abc'' = Inl InvalidId \<and>
   post_feedback (Some db0) 0 (Some (''Bearer '' @ str_of_oid 1))
     \<lparr>fc_lead_id = ''abc'', fc_rating = None, fc_disposition = None, fc_comment = None\<rparr>
     = (Inl InvalidId, Some db0) \<and>
   status_code InvalidId = 500 \<and>
   get_feedback (Some db0) (Some (''Bearer '' @ str_of_oid 2)) (str_of_oid 3)
     = Inl (HTTPException 404 ''Lead not found'') \<and>
   get_feedback (Some db0) (Some (''Bearer '' @ str_of_oid 2)) (str_of_oid 9)
     = Inl (HTTPException 404 ''Lead not found'')"
proof -
  have bad: "find_owned_lead (Some db0) ''abc'' alice = Inl InvalidId"
    by (simp add: find_owned_lead_Some ObjectId_of_str_def)
  have 1: "get_feedback (Some db0) (Some (''Bearer '' @ str_of_oid 1)) ''abc'' = Inl InvalidId"
    by (simp add: get_feedback_def alice_token get_feedback_for_lead_error [OF bad]
        del: append.simps)
  have 2: "post_feedback (Some db0) 0 (Some (''Bearer '' @ str_of_oid 1))
     \<lparr>fc_lead_id = ''abc'', fc_rating = None, fc_disposition = None, fc_comment = None\<rparr>
     = (Inl InvalidId, Some db0)"
    using bad by (simp add: post_feedback_def alice_token submit_feedback_error del: append.simps)
  have 3: "get_feedback (Some db0) (Some (''Bearer '' @ str_of_oid 2)) (str_of_oid 3)
     = Inl (HTTPException 404 ''Lead not found'')"
    by (simp add: get_feedback_def bob_token get_feedback_for_lead_not_owned [OF jane_not_bobs]
        del: append.simps)
  have 4: "get_feedback (Some db0) (Some (''Bearer '' @ str_of_oid 2)) (str_of_oid 9)
     = Inl (HTTPException 404 ''Lead not found'')"
    by (simp add: get_feedback_def bob_token get_feedback_for_lead_not_owned [OF nobody_owns_9]
        del: append.simps)
  from alice_token 1 2 3 4 show ?thesis by simp
qed

section \<open>The is_active flag\<close>

lemma map_of_same_but:
  "list_all2 (\<lambda>(k, v) (k', v'). k = k' \<and> (k = ''is_active'' \<or> v = v')) xs ys \<Longrightarrow>
   k \<noteq> ''is_active'' \<Longrightarrow> map_of xs k = map_of ys k"
  by (induction rule: list_all2_induct) auto

lemma doc_lookup_same_but:
  "same_but_is_active c c' \<Longrightarrow> k \<noteq> ''is_active'' \<Longrightarrow> doc_lookup c k = doc_lookup c' k"
  by (simp add: same_but_is_active_def doc_lookup_def map_of_same_but)

lemma doc_id_same_but: "same_but_is_active c c' \<Longrightarrow> doc_id c = doc_id c'"
  by (simp add: same_but_is_active_def)

lemma matches_same_but:
  "same_but_is_active c c' \<Longrightarrow> ''is_active'' \<notin> fst ` set flt \<Longrightarrow>
   matches flt c = matches flt c'"
proof (induction flt)
  case Nil
  then show ?case by (simp add: matches_def)
next
  case (Cons kv flt)
  obtain k v where kv: "kv = (k, v)" by (cases kv)
  with Cons.prems have k: "k \<noteq> ''is_active''" by auto
  from Cons have "matches flt c = matches flt c'" by simp
  with doc_lookup_same_but [OF Cons.prems(1) k] kv show ?case
    by (simp add: matches_def)
qed

lemma find_one_same_but:
  "list_all2 same_but_is_active cs cs' \<Longrightarrow> ''is_active'' \<notin> fst ` set flt \<Longrightarrow>
   rel_option same_but_is_active (find_one cs flt) (find_one cs' flt)"
proof (induction rule: list_all2_induct)
  case Nil
  then show ?case by (simp add: find_one_def)
next
  case (Cons c cs c' cs')
  from matches_same_but [OF Cons.hyps(1) Cons.prems]
  have m: "matches flt c = matches flt c'" .
  from Cons.IH [OF Cons.prems]
  have "rel_option same_but_is_active (find_one cs flt) (find_one cs' flt)" .
  with m Cons.hyps(1) show ?case
    by (simp add: find_one_def)
qed

lemma map_of_colls_rel:
  "list_all2 (\<lambda>(n, ds) (n', ds'). n = n' \<and> Q n ds ds') xs ys \<Longrightarrow>
   rel_option (Q n) (map_of xs n) (map_of ys n)"
  by (induction rule: list_all2_induct) auto

lemma coll_same_but:
  assumes "stores_same_but_is_active d d'"
  shows "list_all2 same_but_is_active (coll d ''customer'') (coll d' ''customer'')"
    and "n \<noteq> ''customer'' \<Longrightarrow> coll d n = coll d' n"
proof -
  let ?Q = "\<lambda>n ds ds'. if n = ''customer'' then list_all2 same_but_is_active ds ds' else ds = ds'"
  from assms have r: "list_all2 (\<lambda>(n, ds) (n', ds'). n = n' \<and> ?Q n ds ds') (colls d) (colls d')"
    by (simp add: stores_same_but_is_active_def)
  from map_of_colls_rel [OF r, of "''customer''"]
  show "list_all2 same_but_is_active (coll d ''customer'') (coll d' ''customer'')"
    by (auto simp: coll_def elim!: option.rel_cases)
  assume "n \<noteq> ''customer''"
  with map_of_colls_rel [OF r, of n]
  show "coll d n = coll d' n"
    by (auto simp: coll_def elim!: option.rel_cases)
qed

lemma update_colls_same_but:
  "list_all2 (\<lambda>(n, ds) (n', ds'). n = n' \<and>
       (if n = ''customer'' then list_all2 same_but_is_active ds ds' else ds = ds')) xs ys \<Longrightarrow>
   k \<noteq> ''customer'' \<Longrightarrow>
   list_all2 (\<lambda>(n, ds) (n', ds'). n = n' \<and>
       (if n = ''customer'' then list_all2 same_but_is_active ds ds' else ds = ds'))
     (AList.update k v xs) (AList.update k v ys)"
  by (induction rule: list_all2_induct) auto

lemma insert_one_same_but:
  assumes r: "stores_same_but_is_active d d'" and n: "cname \<noteq> ''customer''"
  shows "stores_same_but_is_active (fst (insert_one d cname data)) (fst (insert_one d' cname data))"
    and "snd (insert_one d cname data) = snd (insert_one d' cname data)"
proof -
  let ?Q = "\<lambda>n ds ds'. if n = ''customer'' then list_all2 same_but_is_active ds ds' else ds = ds'"
  from r have c: "list_all2 (\<lambda>(n, ds) (n', ds'). n = n' \<and> ?Q n ds ds') (colls d) (colls d')"
    and i: "next_oid d = next_oid d'"
    by (simp_all add: stores_same_but_is_active_def)
  from coll_same_but(2) [OF r n] have e: "coll d cname = coll d' cname" .
  let ?v = "coll d cname @ [\<lparr>doc_id = next_oid d, doc_fields = data\<rparr>]"
  have u: "list_all2 (\<lambda>(n, ds) (n', ds'). n = n' \<and> ?Q n ds ds')
      (AList.update cname ?v (colls d)) (AList.update cname ?v (colls d'))"
    by (rule update_colls_same_but [OF c n])
  have "fst (insert_one d' cname data)
      = d'\<lparr>colls := AList.update cname ?v (colls d'), next_oid := next_oid d + 1\<rparr>"
    by (simp add: insert_one_def Let_def e [symmetric] i [symmetric])
  moreover have "fst (insert_one d cname data)
      = d\<lparr>colls := AList.update cname ?v (colls d), next_oid := next_oid d + 1\<rparr>"
    by (simp add: insert_one_def Let_def)
  ultimately show "stores_same_but_is_active (fst (insert_one d cname data))
      (fst (insert_one d' cname data))"
    using u by (simp add: stores_same_but_is_active_def)
  from i show "snd (insert_one d cname data) = snd (insert_one d' cname data)"
    by (simp add: snd_insert_one)
qed

lemma login_same_but:
  assumes r: "stores_same_but_is_active d d'"
  shows "login (Some d) p = login (Some d') p"
proof -
  let ?flt = "[(''email'', VStr (lr_email p))]"
  have "''is_active'' \<notin> fst ` set ?flt" by simp
  from find_one_same_but [OF coll_same_but(1) [OF r] this]
  have f: "rel_option same_but_is_active
      (find_one (coll d ''customer'') ?flt) (find_one (coll d' ''customer'') ?flt)" .
  show ?thesis
  proof (cases "find_one (coll d ''customer'') ?flt")
    case None
    with f have "find_one (coll d' ''customer'') ?flt = None" by simp
    with None show ?thesis by (simp add: login_not_found)
  next
    case (Some c)
    with f obtain c' where c': "find_one (coll d' ''customer'') ?flt = Some c'"
      and s: "same_but_is_active c c'"
      by (auto elim: option.rel_cases)
    from s have "doc_get c ''password_hash'' = doc_get c' ''password_hash''"
      and "doc_get_default c ''name'' (VStr ''User'') = doc_get_default c' ''name'' (VStr ''User'')"
      and "doc_id c = doc_id c'"
      by (simp_all add: doc_get_def doc_get_default_def doc_lookup_same_but doc_id_same_but)
    then show ?thesis
      by (simp add: login_found [OF Some] login_found [OF c'])
  qed
qed

lemma get_current_customer_same_but:
  assumes r: "stores_same_but_is_active d d'"
  shows "rel_sum (=) same_but_is_active
           (get_current_customer (Some d) a) (get_current_customer (Some d') a)"
proof (cases a)
  case None
  then show ?thesis by (simp add: get_current_customer_def get_current_def)
next
  case (Some h)
  show ?thesis
  proof (cases "ObjectId_of_str (str_replace ''Bearer '' [] h)")
    case None
    with Some show ?thesis
      by (simp add: get_current_customer_def get_current_unparsed)
  next
    case (Some oid)
    have "''is_active'' \<notin> fst ` set [(''_id'', VOid oid)]" by simp
    from find_one_same_but [OF coll_same_but(1) [OF r] this]
    have f: "rel_option same_but_is_active
        (find_one (coll d ''customer'') [(''_id'', VOid oid)])
        (find_one (coll d' ''customer'') [(''_id'', VOid oid)])" .
    from get_current_parsed [OF Some, of "''customer''" d]
      get_current_parsed [OF Some, of "''customer''" d'] f \<open>a = Some h\<close>
    show ?thesis
      by (auto simp: get_current_customer_def elim: option.rel_cases)
  qed
qed

lemma create_lead_same_but:
  assumes r: "stores_same_but_is_active d d'" and s: "same_but_is_active c c'"
  shows "fst (create_lead EmailStr_call (Some d) p c)
           = fst (create_lead EmailStr_call (Some d') p c') \<and>
         rel_option stores_same_but_is_active
           (snd (create_lead EmailStr_call (Some d) p c))
           (snd (create_lead EmailStr_call (Some d') p c'))"
proof -
  from s have i: "doc_id c = doc_id c'" by (rule doc_id_same_but)
  from r have n: "next_oid d = next_oid d'" by (simp add: stores_same_but_is_active_def)
  have l: "''lead'' \<noteq> ''customer''" by simp
  note ins = insert_one_same_but(1) [OF r l]
  from create_lead_cases [of p EmailStr_call] show ?thesis
  proof (elim disjE exE conjE)
    fix e err assume e: "lc_email p = Some e" and x: "EmailStr_call e = Inl err"
    from e x have "create_lead EmailStr_call (Some d) p c = (Inl err, Some d)"
      by (rule create_lead_rejected)
    moreover from e x have "create_lead EmailStr_call (Some d') p c' = (Inl err, Some d')"
      by (rule create_lead_rejected)
    ultimately show ?thesis using r by simp
  next
    fix v
    assume ok: "(case lc_email p of
              None \<Rightarrow> v = None
            | Some e \<Rightarrow> \<exists>e'. EmailStr_call e = Inr e' \<and> v = Some e')"
    let ?data = "[(''customer_id'', VStr (str_of_oid (doc_id c))), (''name'', VStr (lc_name p)),
         (''email'', opt_str v), (''phone'', opt_str (lc_phone p)),
         (''source'', opt_str (lc_source p)), (''status'', VStr ''new''),
         (''notes'', VNone)]"
    from ok have "create_lead EmailStr_call (Some d) p c
        = (Inr [(''id'', VStr (str_of_oid (next_oid d)))], Some (fst (insert_one d ''lead'' ?data)))"
      by (rule create_lead_accepted)
    moreover from ok have "create_lead EmailStr_call (Some d') p c'
        = (Inr [(''id'', VStr (str_of_oid (next_oid d')))],
           Some (fst (insert_one d' ''lead''
             [(''customer_id'', VStr (str_of_oid (doc_id c'))), (''name'', VStr (lc_name p)),
              (''email'', opt_str v), (''phone'', opt_str (lc_phone p)),
              (''source'', opt_str (lc_source p)), (''status'', VStr ''new''),
              (''notes'', VNone)])))"
      by (rule create_lead_accepted)
    ultimately show ?thesis using ins [of ?data] by (simp add: i n)
  qed
qed

lemma list_leads_same_but:
  assumes r: "stores_same_but_is_active d d'" and s: "same_but_is_active c c'"
  shows "list_leads (Some d) c = list_leads (Some d') c'"
proof -
  have l: "''lead'' \<noteq> ''customer''" by simp
  from coll_same_but(2) [OF r l] doc_id_same_but [OF s]
  show ?thesis by (simp add: list_leads_Some)
qed

lemma find_owned_lead_same_but:
  assumes r: "stores_same_but_is_active d d'" and s: "same_but_is_active c c'"
  shows "find_owned_lead (Some d) lid c = find_owned_lead (Some d') lid c'"
proof -
  have l: "''lead'' \<noteq> ''customer''" by simp
  from coll_same_but(2) [OF r l] doc_id_same_but [OF s]
  show ?thesis by (simp add: find_owned_lead_Some split: option.split)
qed

lemma get_feedback_for_lead_same_but:
  assumes r: "stores_same_but_is_active d d'" and s: "same_but_is_active c c'"
  shows "get_feedback_for_lead (Some d) lid c = get_feedback_for_lead (Some d') lid c'"
proof -
  have l: "''feedback'' \<noteq> ''customer''" by simp
  from coll_same_but(2) [OF r l] doc_id_same_but [OF s] find_owned_lead_same_but [OF r s]
  show ?thesis by (simp add: get_feedback_for_lead_def get_documents_def split: sum.split option.split)
qed

lemma submit_feedback_same_but:
  assumes r: "stores_same_but_is_active d d'" and s: "same_but_is_active c c'"
  shows "fst (submit_feedback (Some d) now p c) = fst (submit_feedback (Some d') now p c') \<and>
         rel_option stores_same_but_is_active
           (snd (submit_feedback (Some d) now p c)) (snd (submit_feedback (Some d') now p c'))"
proof -
  from s have i: "doc_id c = doc_id c'" by (rule doc_id_same_but)
  from r have n: "next_oid d = next_oid d'" by (simp add: stores_same_but_is_active_def)
  have l: "''feedback'' \<noteq> ''customer''" by simp
  note o = find_owned_lead_same_but [OF r s, of "fc_lead_id p"]
  note ins = insert_one_same_but(1) [OF r l]
  show ?thesis
  proof (cases "find_owned_lead (Some d) (fc_lead_id p) c")
    case (Inl e)
    then have a: "find_owned_lead (Some d) (fc_lead_id p) c = Inl e" .
    with o have b: "find_owned_lead (Some d') (fc_lead_id p) c' = Inl e" by simp
    from r show ?thesis
      by (simp add: submit_feedback_error [OF a] submit_feedback_error [OF b])
  next
    case (Inr found)
    show ?thesis
    proof (cases found)
      case None
      with Inr have a: "find_owned_lead (Some d) (fc_lead_id p) c = Inr None" by simp
      with o have b: "find_owned_lead (Some d') (fc_lead_id p) c' = Inr None" by simp
      from r show ?thesis
        by (simp add: submit_feedback_not_owned [OF a] submit_feedback_not_owned [OF b])
    next
      case (Some lead)
      with Inr have a: "find_owned_lead (Some d) (fc_lead_id p) c = Inr (Some lead)" by simp
      with o have b: "find_owned_lead (Some d') (fc_lead_id p) c' = Inr (Some lead)" by simp
      from r ins show ?thesis
        by (simp add: submit_feedback_owned [OF a] submit_feedback_owned [OF b] i n)
    qed
  qed
qed

lemma resolved_same_but:
  assumes r: "stores_same_but_is_active d d'"
  shows "(\<exists>e. get_current_customer (Some d) a = Inl e \<and>
            get_current_customer (Some d') a = Inl e) \<or>
         (\<exists>c c'. get_current_customer (Some d) a = Inr c \<and>
            get_current_customer (Some d') a = Inr c' \<and> same_but_is_active c c')"
proof (cases "get_current_customer (Some d) a")
  case (Inl e)
  with get_current_customer_same_but [OF r, of a]
  have "get_current_customer (Some d') a = Inl e"
    by (cases "get_current_customer (Some d') a") simp_all
  with Inl show ?thesis by blast
next
  case (Inr c)
  with get_current_customer_same_but [OF r, of a]
  obtain c' where "get_current_customer (Some d') a = Inr c'" and "same_but_is_active c c'"
    by (cases "get_current_customer (Some d') a") simp_all
  with Inr show ?thesis by blast
qed

text \<open>
  Claim C10. The is_active flag is never consulted: on two stores that are the same but
  for the is_active values of their customers, login gives the same result, token
  resolution fails alike or resolves to customers that are the same but for is_active,
  and every endpoint behind it gives the same response and leaves stores that are again
  the same but for is_active.
\<close>

theorem is_active_never_consulted:
  "stores_same_but_is_active d d' \<longrightarrow>
     login (Some d) lr = login (Some d') lr \<and>
     rel_sum (=) same_but_is_active
       (get_current_customer (Some d) a) (get_current_customer (Some d') a) \<and>
     get_leads (Some d) a = get_leads (Some d') a \<and>
     get_feedback (Some d) a lid = get_feedback (Some d') a lid \<and>
     fst (post_leads EmailStr_call (Some d) a lc) = fst (post_leads EmailStr_call (Some d') a lc) \<and>
     rel_option stores_same_but_is_active
       (snd (post_leads EmailStr_call (Some d) a lc)) (snd (post_leads EmailStr_call (Some d') a lc)) \<and>
     fst (post_feedback (Some d) now a fc) = fst (post_feedback (Some d') now a fc) \<and>
     rel_option stores_same_but_is_active
       (snd (post_feedback (Some d) now a fc)) (snd (post_feedback (Some d') now a fc))"
proof
  assume r: "stores_same_but_is_active d d'"
  have 1: "login (Some d) lr = login (Some d') lr"
    by (rule login_same_but [OF r])
  have 2: "rel_sum (=) same_but_is_active
       (get_current_customer (Some d) a) (get_current_customer (Some d') a)"
    by (rule get_current_customer_same_but [OF r])
  have 3: "get_leads (Some d) a = get_leads (Some d') a"
    using resolved_same_but [OF r, of a]
  proof (elim disjE exE conjE)
    fix e assume "get_current_customer (Some d) a = Inl e"
      and "get_current_customer (Some d') a = Inl e"
    then show ?thesis by (simp add: get_leads_def)
  next
    fix c c' assume "get_current_customer (Some d) a = Inr c"
      and "get_current_customer (Some d') a = Inr c'" and s: "same_but_is_active c c'"
    with list_leads_same_but [OF r s] show ?thesis by (simp add: get_leads_def)
  qed
  have 4: "get_feedback (Some d) a lid = get_feedback (Some d') a lid"
    using resolved_same_but [OF r, of a]
  proof (elim disjE exE conjE)
    fix e assume "get_current_customer (Some d) a = Inl e"
      and "get_current_customer (Some d') a = Inl e"
    then show ?thesis by (simp add: get_feedback_def)
  next
    fix c c' assume "get_current_customer (Some d) a = Inr c"
      and "get_current_customer (Some d') a = Inr c'" and s: "same_but_is_active c c'"
    with get_feedback_for_lead_same_but [OF r s] show ?thesis
      by (simp add: get_feedback_def)
  qed
  have 5: "fst (post_leads EmailStr_call (Some d) a lc) = fst (post_leads EmailStr_call (Some d') a lc) \<and>
     rel_option stores_same_but_is_active
       (snd (post_leads EmailStr_call (Some d) a lc)) (snd (post_leads EmailStr_call (Some d') a lc))"
    using resolved_same_but [OF r, of a]
  proof (elim disjE exE conjE)
    fix e assume "get_current_customer (Some d) a = Inl e"
      and "get_current_customer (Some d') a = Inl e"
    with r show ?thesis by (simp add: post_leads_def)
  next
    fix c c' assume "get_current_customer (Some d) a = Inr c"
      and "get_current_customer (Some d') a = Inr c'" and s: "same_but_is_active c c'"
    with create_lead_same_but [OF r s] show ?thesis
      by (simp add: post_leads_def)
  qed
  have 6: "fst (post_feedback (Some d) now a fc) = fst (post_feedback (Some d') now a fc) \<and>
     rel_option stores_same_but_is_active
       (snd (post_feedback (Some d) now a fc)) (snd (post_feedback (Some d') now a fc))"
    using resolved_same_but [OF r, of a]
  proof (elim disjE exE conjE)
    fix e assume "get_current_customer (Some d) a = Inl e"
      and "get_current_customer (Some d') a = Inl e"
    with r show ?thesis by (simp add: post_feedback_def)
  next
    fix c c' assume "get_current_customer (Some d) a = Inr c"
      and "get_current_customer (Some d') a = Inr c'" and s: "same_but_is_active c c'"
    with submit_feedback_same_but [OF r s] show ?thesis
      by (simp add: post_feedback_def)
  qed
  from 1 2 3 4 5 6
  show "login (Some d) lr = login (Some d') lr \<and>
     rel_sum (=) same_but_is_active
       (get_current_customer (Some d) a) (get_current_customer (Some d') a) \<and>
     get_leads (Some d) a = get_leads (Some d') a \<and>
     get_feedback (Some d) a lid = get_feedback (Some d') a lid \<and>
     fst (post_leads EmailStr_call (Some d) a lc) = fst (post_leads EmailStr_call (Some d') a lc) \<and>
     rel_option stores_same_but_is_active
       (snd (post_leads EmailStr_call (Some d) a lc)) (snd (post_leads EmailStr_call (Some d') a lc)) \<and>
     fst (post_feedback (Some d) now a fc) = fst (post_feedback (Some d') now a fc) \<and>
     rel_option stores_same_but_is_active
       (snd (post_feedback (Some d) now a fc)) (snd (post_feedback (Some d') now a fc))"
    by (simp only: simp_thms)
qed

lemma db0_db0_flipped: "stores_same_but_is_active db0 db0_flipped"
  by (simp add: stores_same_but_is_active_def same_but_is_active_def db0_def db0_flipped_def
      alice_def bob_def)

theorem is_active_never_consulted_witness:
  "stores_same_but_is_active db0 db0_flipped \<and>
   login (Some db0_flipped) \<lparr>lr_email = ''b@x.com'', lr_password = ''pw2''\<rparr>
     = login (Some db0) \<lparr>lr_email = ''b@x.com'', lr_password = ''pw2''\<rparr> \<and>
   get_leads (Some db0_flipped) (Some (''Bearer '' @ str_of_oid 1))
     = get_leads (Some db0) (Some (''Bearer '' @ str_of_oid 1)) \<and>
   fst (post_leads sample_EmailStr (Some db0_flipped) (Some (''Bearer '' @ str_of_oid 2)) kim)
     = fst (post_leads sample_EmailStr (Some db0) (Some (''Bearer '' @ str_of_oid 2)) kim) \<and>
   fst (post_feedback (Some db0_flipped) 0 (Some (''Bearer '' @ str_of_oid 1)) rate5)
     = fst (post_feedback (Some db0) 0 (Some (''Bearer '' @ str_of_oid 1)) rate5)"
proof -
  note t = is_active_never_consulted
    [where d = db0 and d' = db0_flipped
      and lr = "\<lparr>lr_email = ''b@x.com'', lr_password = ''pw2''\<rparr>"
      and a = "Some (''Bearer '' @ str_of_oid 1)" and lid = "str_of_oid 3" and lc = kim
      and now = 0 and fc = rate5 and EmailStr_call = sample_EmailStr,
      THEN mp, OF db0_db0_flipped]
  note u = is_active_never_consulted
    [where d = db0 and d' = db0_flipped
      and lr = "\<lparr>lr_email = ''b@x.com'', lr_password = ''pw2''\<rparr>"
      and a = "Some (''Bearer '' @ str_of_oid 2)" and lid = "str_of_oid 3" and lc = kim
      and now = 0 and fc = rate5 and EmailStr_call = sample_EmailStr,
      THEN mp, OF db0_db0_flipped]
  from t have 1: "login (Some db0_flipped) \<lparr>lr_email = ''b@x.com'', lr_password = ''pw2''\<rparr>
     = login (Some db0) \<lparr>lr_email = ''b@x.com'', lr_password = ''pw2''\<rparr>"
    by (simp only:)
  from t have 2: "get_leads (Some db0_flipped) (Some (''Bearer '' @ str_of_oid 1))
     = get_leads (Some db0) (Some (''Bearer '' @ str_of_oid 1))"
    by (simp only:)
  from u have 3: "fst (post_leads sample_EmailStr (Some db0_flipped) (Some (''Bearer '' @ str_of_oid 2)) kim)
     = fst (post_leads sample_EmailStr (Some db0) (Some (''Bearer '' @ str_of_oid 2)) kim)"
    by (simp only:)
  from t have 4: "fst (post_feedback (Some db0_flipped) 0 (Some (''Bearer '' @ str_of_oid 1)) rate5)
     = fst (post_feedback (Some db0) 0 (Some (''Bearer '' @ str_of_oid 1)) rate5)"
    by (simp only:)
  from db0_db0_flipped 1 2 3 4 show ?thesis by (simp only: simp_thms)
qed

end
